theory Spec2Isabelle
  imports Complex_Main "HOL-Library.Multiset" "HOL-Library.Log_Nat"
begin

section \<open>Livepeer delegator dashboard: the aggregation core of LivepeerDashboard.jsx\<close>

text \<open>
  The development follows the last revision of the component in
  \<^verbatim>\<open>src/LivepeerDashboard.jsx\<close> (the one with ENS resolution, the orchestrator
  comparison and the CSV export).

  Conventions of the embedding.
  \<^item> A JavaScript number is a value of the type \<open>num\<close> below: a binary64 value, either
    finite (given by the rational it denotes), an infinity or \<open>NaN\<close>. Every arithmetic
    operation rounds its exact result to the nearest binary64 value, ties to even. The two
    zeros are one value: the code never divides by a number that can be zero, so the sign of
    a zero is never turned into a different number.
  \<^item> A numeric field of a query payload is the decimal string the subgraph serves; the
    code's \<^verbatim>\<open>Number(...)\<close> is the function \<open>Number\<close>. Round and timestamp fields, which
    the subgraph serves as integers far below \<open>2^53\<close>, are \<^typ>\<open>int\<close>.
  \<^item> A JavaScript string is a \<^typ>\<open>string\<close> whose characters are the code units 0..255.
  \<^item> \<^verbatim>\<open>null\<close>/\<^verbatim>\<open>undefined\<close> is \<open>None\<close>; a collection that is \<^verbatim>\<open>null\<close> and is
    read through \<^verbatim>\<open>|| []\<close> is the empty list.
  \<^item> A rejected promise is \<open>Inl msg\<close> with \<open>msg\<close> the \<^verbatim>\<open>message\<close> of the error.
  \<^item> The component state (the \<^verbatim>\<open>useState\<close> cells) is a record that every handler takes
    and returns; one handler runs to its end before the next one starts.
\<close>

subsection \<open>Numbers\<close>

datatype num = Fin rat | PInf | NInf | NaN

text \<open>Rounding to the nearest integer, a tie going to the even one.\<close>

definition round_half_even :: "rat \<Rightarrow> int" where
  "round_half_even x =
     (let n = \<lfloor>x\<rfloor>; r = x - of_int n
      in if r < 1 / 2 then n else if 1 / 2 < r then n + 1 else if even n then n else n + 1)"

text \<open>The binary exponent of a positive rational \<open>q\<close>: the \<open>e\<close> with \<open>2^e \<le> q < 2^(e+1)\<close>,
  found from the bit lengths of numerator and denominator.\<close>

definition ilog2 :: "rat \<Rightarrow> int" where
  "ilog2 q =
     (let e = bitlen (fst (quotient_of q)) - bitlen (snd (quotient_of q))
      in if 2 powi e \<le> q then e else e - 1)"

text \<open>The distance of neighbouring binary64 values around a positive \<open>q\<close>: 53 significant
  bits, and the fixed spacing \<open>2^-1074\<close> of the subnormal values below \<open>2^-1022\<close>.\<close>

definition ulp :: "rat \<Rightarrow> rat" where
  "ulp q = 2 powi (max (ilog2 q) (- 1022) - 52)"

definition nearest :: "rat \<Rightarrow> rat" where
  "nearest q = of_int (round_half_even (q / ulp q)) * ulp q"

text \<open>The binary64 value of an exact result: the nearest one, an infinity when the rounded
  magnitude reaches \<open>2^1024\<close>.\<close>

definition rd :: "rat \<Rightarrow> num" where
  "rd q =
     (if q = 0 then Fin 0
      else (let r = nearest \<bar>q\<bar>
            in if 1024 \<le> ilog2 r then (if 0 < q then PInf else NInf) else Fin (sgn q * r)))"

text \<open>Unary minus, \<^verbatim>\<open>+\<close>, \<^verbatim>\<open>-\<close>, \<^verbatim>\<open>*\<close> and \<^verbatim>\<open>/\<close> on numbers.\<close>

fun fneg :: "num \<Rightarrow> num" where
  "fneg (Fin q) = Fin (- q)"
| "fneg PInf = NInf"
| "fneg NInf = PInf"
| "fneg NaN = NaN"

fun fadd :: "num \<Rightarrow> num \<Rightarrow> num" where
  "fadd (Fin a) (Fin b) = rd (a + b)"
| "fadd NaN y = NaN"
| "fadd x NaN = NaN"
| "fadd PInf NInf = NaN"
| "fadd NInf PInf = NaN"
| "fadd PInf y = PInf"
| "fadd x PInf = PInf"
| "fadd NInf y = NInf"
| "fadd x NInf = NInf"

definition fsub :: "num \<Rightarrow> num \<Rightarrow> num" where
  "fsub x y = fadd x (fneg y)"

definition is_neg :: "num \<Rightarrow> bool" where
  "is_neg x = (case x of Fin q \<Rightarrow> q < 0 | NInf \<Rightarrow> True | _ \<Rightarrow> False)"

definition is_inf :: "num \<Rightarrow> bool" where
  "is_inf x = (x = PInf \<or> x = NInf)"

text \<open>A product with an infinite factor is \<open>NaN\<close> when the other factor is zero, and an
  infinity with the product of the signs otherwise.\<close>

definition fmul :: "num \<Rightarrow> num \<Rightarrow> num" where
  "fmul x y =
     (case (x, y) of
        (Fin a, Fin b) \<Rightarrow> rd (a * b)
      | _ \<Rightarrow> if x = NaN \<or> y = NaN \<or> x = Fin 0 \<or> y = Fin 0 then NaN
             else if is_neg x = is_neg y then PInf else NInf)"

text \<open>A finite quotient by zero is an infinity (\<open>NaN\<close> for \<open>0 / 0\<close>), a finite number over
  an infinity is zero, two infinities give \<open>NaN\<close>.\<close>

definition fdiv :: "num \<Rightarrow> num \<Rightarrow> num" where
  "fdiv x y =
     (case (x, y) of
        (Fin a, Fin b) \<Rightarrow>
          if b = 0 then (if a = 0 then NaN else if 0 < a then PInf else NInf) else rd (a / b)
      | _ \<Rightarrow> if x = NaN \<or> y = NaN \<or> (is_inf x \<and> is_inf y) then NaN
             else if is_inf y then Fin 0
             else if is_neg x = is_neg y then PInf else NInf)"

text \<open>\<^verbatim>\<open>x < y\<close> and \<^verbatim>\<open>x <= y\<close>: false as soon as one side is \<open>NaN\<close>.\<close>

fun num_lt :: "num \<Rightarrow> num \<Rightarrow> bool" where
  "num_lt NaN y = False"
| "num_lt x NaN = False"
| "num_lt (Fin a) (Fin b) = (a < b)"
| "num_lt x PInf = (x \<noteq> PInf)"
| "num_lt PInf y = False"
| "num_lt NInf y = (y \<noteq> NInf)"
| "num_lt x NInf = False"

definition num_le :: "num \<Rightarrow> num \<Rightarrow> bool" where
  "num_le x y = (x \<noteq> NaN \<and> y \<noteq> NaN \<and> \<not> num_lt y x)"

text \<open>\<^verbatim>\<open>Math.max\<close> of two numbers, and \<^verbatim>\<open>x || 0\<close> (zero and \<open>NaN\<close> are falsy).\<close>

definition fmax :: "num \<Rightarrow> num \<Rightarrow> num" where
  "fmax x y = (if x = NaN \<or> y = NaN then NaN else if num_lt x y then y else x)"

definition or_zero :: "num \<Rightarrow> num" where
  "or_zero x = (if x = NaN \<or> x = Fin 0 then Fin 0 else x)"

text \<open>
  The number \<^verbatim>\<open>+x.toFixed(d)\<close>. For a finite \<open>x\<close> below \<open>10^21\<close> in magnitude,
  \<^verbatim>\<open>toFixed\<close> prints the integer \<open>n\<close> with \<open>n / 10^d\<close> nearest to the magnitude of \<open>x\<close> (the
  larger one of two), with \<open>d\<close> decimals and the sign, and the unary plus reads that decimal
  back as a number. From \<open>10^21\<close> on, and for the infinities and \<open>NaN\<close>, \<^verbatim>\<open>toFixed\<close> prints
  the number as \<^verbatim>\<open>String\<close> does, which reads back as the same number.
\<close>

definition toFixed_num :: "nat \<Rightarrow> num \<Rightarrow> num" where
  "toFixed_num d x =
     (case x of
        Fin q \<Rightarrow> if 10 ^ 21 \<le> \<bar>q\<bar> then x
                 else rd (sgn q * (of_int \<lfloor>\<bar>q\<bar> * 10 ^ d + 1 / 2\<rfloor> / 10 ^ d))
      | _ \<Rightarrow> x)"

text \<open>A finite number is a binary64 value when rounding leaves it as it is.\<close>

definition is_double :: "num \<Rightarrow> bool" where
  "is_double x = (case x of Fin q \<Rightarrow> rd q = Fin q | _ \<Rightarrow> True)"

subsection \<open>Strings read as numbers\<close>

text \<open>The white space and line terminators of \<^verbatim>\<open>String.prototype.trim\<close> among the code
  units 0..255: TAB, LF, VT, FF, CR, SPACE and NO-BREAK SPACE.\<close>

definition is_space :: "char \<Rightarrow> bool" where
  "is_space c = (c \<in> {CHR 0x09, CHR 0x0A, CHR 0x0B, CHR 0x0C, CHR 0x0D, CHR 0x20, CHR 0xA0})"

definition trim :: "string \<Rightarrow> string" where
  "trim s = rev (dropWhile is_space (rev (dropWhile is_space s)))"

text \<open>The value of a digit, also of a hexadecimal one.\<close>

definition digit_of :: "char \<Rightarrow> int option" where
  "digit_of c =
     (let n = (of_char c :: int)
      in if 48 \<le> n \<and> n \<le> 57 then Some (n - 48)
         else if 97 \<le> n \<and> n \<le> 102 then Some (n - 87)
         else if 65 \<le> n \<and> n \<le> 70 then Some (n - 55)
         else None)"

definition digits_in :: "int \<Rightarrow> string \<Rightarrow> bool" where
  "digits_in b s = list_all (\<lambda>c. case digit_of c of Some d \<Rightarrow> d < b | None \<Rightarrow> False) s"

definition digits_val :: "int \<Rightarrow> string \<Rightarrow> int" where
  "digits_val b s = foldl (\<lambda>n c. b * n + (case digit_of c of Some d \<Rightarrow> d | None \<Rightarrow> 0)) 0 s"

text \<open>The part of a string before the first character with \<open>P\<close>, and the part after it.\<close>

definition before :: "(char \<Rightarrow> bool) \<Rightarrow> string \<Rightarrow> string" where
  "before P s = takeWhile (\<lambda>c. \<not> P c) s"

definition after :: "(char \<Rightarrow> bool) \<Rightarrow> string \<Rightarrow> string option" where
  "after P s = (case dropWhile (\<lambda>c. \<not> P c) s of [] \<Rightarrow> None | c # r \<Rightarrow> Some r)"

text \<open>Digits with an optional fraction: \<^verbatim>\<open>12\<close>, \<^verbatim>\<open>12.\<close>, \<^verbatim>\<open>12.5\<close>, \<^verbatim>\<open>.5\<close>.\<close>

definition mantissa :: "string \<Rightarrow> rat option" where
  "mantissa s =
     (let ip = before (\<lambda>c. c = CHR ''.'') s
      in case after (\<lambda>c. c = CHR ''.'') s of
           None \<Rightarrow> if ip \<noteq> [] \<and> digits_in 10 ip then Some (of_int (digits_val 10 ip)) else None
         | Some fp \<Rightarrow>
             if (ip \<noteq> [] \<or> fp \<noteq> []) \<and> digits_in 10 ip \<and> digits_in 10 fp
             then Some (of_int (digits_val 10 ip) + of_int (digits_val 10 fp) / 10 ^ length fp)
             else None)"

definition decimal_digits :: "string \<Rightarrow> int option" where
  "decimal_digits s = (if s \<noteq> [] \<and> digits_in 10 s then Some (digits_val 10 s) else None)"

definition signed_integer :: "string \<Rightarrow> int option" where
  "signed_integer s =
     (case s of
        [] \<Rightarrow> None
      | c # r \<Rightarrow> if c = CHR ''+'' then decimal_digits r
                 else if c = CHR ''-'' then map_option uminus (decimal_digits r)
                 else decimal_digits s)"

text \<open>The exact value of an unsigned decimal literal with an optional exponent part.\<close>

definition unsigned_decimal :: "string \<Rightarrow> rat option" where
  "unsigned_decimal s =
     (let m = before (\<lambda>c. c = CHR ''e'' \<or> c = CHR ''E'') s
      in case after (\<lambda>c. c = CHR ''e'' \<or> c = CHR ''E'') s of
           None \<Rightarrow> mantissa m
         | Some ex \<Rightarrow>
             (case mantissa m of
                None \<Rightarrow> None
              | Some v \<Rightarrow> (case signed_integer ex of
                             None \<Rightarrow> None
                           | Some k \<Rightarrow> Some (v * 10 powi k))))"

text \<open>The value of a hexadecimal, octal or binary integer literal.\<close>

definition non_decimal :: "string \<Rightarrow> rat option" where
  "non_decimal s =
     (case s of
        c0 # c1 # r \<Rightarrow>
          if c0 = CHR ''0'' \<and> r \<noteq> [] then
            (if (c1 = CHR ''x'' \<or> c1 = CHR ''X'') \<and> digits_in 16 r then Some (of_int (digits_val 16 r))
             else if (c1 = CHR ''o'' \<or> c1 = CHR ''O'') \<and> digits_in 8 r then Some (of_int (digits_val 8 r))
             else if (c1 = CHR ''b'' \<or> c1 = CHR ''B'') \<and> digits_in 2 r then Some (of_int (digits_val 2 r))
             else None)
          else None
      | _ \<Rightarrow> None)"

text \<open>
  \<^verbatim>\<open>Number(s)\<close> for a string \<open>s\<close>: white space around the literal is dropped, the empty
  string is 0, a literal that is not numeric is \<open>NaN\<close>, and the exact value of a numeric
  literal is rounded to the nearest binary64 value.
\<close>

definition Number :: "string \<Rightarrow> num" where
  "Number s =
     (let t = trim s
      in if t = [] then Fin 0
         else case non_decimal t of
                Some v \<Rightarrow> rd v
              | None \<Rightarrow>
                  (let neg = (hd t = CHR ''-'');
                       u = (if hd t = CHR ''+'' \<or> hd t = CHR ''-'' then tl t else t)
                   in if u = ''Infinity'' then (if neg then NInf else PInf)
                      else case unsigned_decimal u of
                             Some v \<Rightarrow> rd (if neg then - v else v)
                           | None \<Rightarrow> NaN))"

subsection \<open>Number and text formatting of the JavaScript runtime\<close>

text \<open>
  The runtime's number-to-text routines are parameters of the model:
  \<^verbatim>\<open>Number.prototype.toLocaleString("en-US", {maximumFractionDigits: d, minimumFractionDigits: d})\<close>,
  \<^verbatim>\<open>Number.prototype.toFixed(d)\<close>, the conversion of a number inside a template literal, and
  \<^verbatim>\<open>Date.prototype.toLocaleDateString\<close> with the options of \<^verbatim>\<open>fmtM\<close>.
\<close>

record js_text =
  toLocaleString :: "num \<Rightarrow> nat \<Rightarrow> string"
  toFixed :: "num \<Rightarrow> nat \<Rightarrow> string"
  toString :: "int \<Rightarrow> string"
  toLocaleDateString_month :: "int \<Rightarrow> string"

text \<open>\<^verbatim>\<open>fmtN = (n, d = 2) => Number(n).toLocaleString("en-US", {...})\<close>\<close>

definition fmtN :: "js_text \<Rightarrow> num \<Rightarrow> nat \<Rightarrow> string" where
  "fmtN J n d = toLocaleString J n d"

text \<open>\<^verbatim>\<open>fmtM = (ts) => new Date(ts * 1000).toLocaleDateString("en-US", {month: "short", year: "2-digit"})\<close>\<close>

definition fmtM :: "js_text \<Rightarrow> int \<Rightarrow> string" where
  "fmtM J ts = toLocaleDateString_month J ts"

text \<open>
  Three literals of the source hold characters that are not ASCII. Each is the three code
  points U+201A, U+00C4 and a third one: U+00B6 between the two halves of a shortened
  address, U+00EE for a missing address, U+00EC between the two rounds of a claim. U+201A
  has no code unit below 256 and is written as the three bytes of its UTF-8 encoding; the
  other two are their code units.
\<close>

definition fmtAddr_sep :: string where
  "fmtAddr_sep = [CHR 0xE2, CHR 0x80, CHR 0x9A, CHR 0xC4, CHR 0xB6]"

definition fmtAddr_none :: string where
  "fmtAddr_none = [CHR 0xE2, CHR 0x80, CHR 0x9A, CHR 0xC4, CHR 0xEE]"

definition rounds_sep :: string where
  "rounds_sep = [CHR 0xE2, CHR 0x80, CHR 0x9A, CHR 0xC4, CHR 0xEC]"

text \<open>\<^verbatim>\<open>fmtAddr = (a) => a ? `${a.slice(0, 6)}<sep>${a.slice(-4)}` : "<none>"\<close>; the empty
  string is falsy, \<^verbatim>\<open>slice(-4)\<close> keeps the last four characters (all of a shorter string).\<close>

definition fmtAddr :: "string \<Rightarrow> string" where
  "fmtAddr a = (if a = [] then fmtAddr_none
                else take 6 a @ fmtAddr_sep @ drop (length a - 4) a)"

subsection \<open>Payloads of the subgraph queries\<close>

text \<open>\<^verbatim>\<open>QUERIES.earnings\<close>: one \<^verbatim>\<open>earningsClaimedEvents\<close> item.\<close>

record claim_raw =
  cr_timestamp :: int
  cr_startRound :: int
  cr_endRound :: int
  cr_rewardTokens :: string
  cr_fees :: string
  cr_delegate :: "string option"

text \<open>\<^verbatim>\<open>QUERIES.events\<close>: a bond event, and the shape shared by the other four kinds.\<close>

record bond_raw =
  br_timestamp :: int
  br_round :: int
  br_additionalAmount :: string
  br_newDelegate :: string
  br_oldDelegate :: "string option"

record amount_raw =
  ar_timestamp :: int
  ar_round :: int
  ar_amount :: string

record events_raw =
  bondEvents :: "bond_raw list"
  unbondEvents :: "amount_raw list"
  rebondEvents :: "amount_raw list"
  withdrawStakeEvents :: "amount_raw list"
  withdrawFeesEvents :: "amount_raw list"

text \<open>\<^verbatim>\<open>QUERIES.delegator\<close>: the profile; of the delegate only the id is kept.\<close>

record delegator_raw =
  dr_id :: string
  dr_bondedAmount :: string
  dr_fees :: string
  dr_withdrawnFees :: string
  dr_startRound :: int
  dr_delegate :: "string option"

text \<open>\<^verbatim>\<open>QUERIES.transcoders\<close> and \<^verbatim>\<open>QUERIES.protocol\<close>.\<close>

record transcoder_raw =
  tr_id :: string
  tr_rewardCut :: string
  tr_feeShare :: string
  tr_totalStake :: string
  tr_thirtyDayVolumeETH :: string
  tr_ninetyDayVolumeETH :: string
  tr_totalVolumeETH :: string
  tr_lastRewardRound :: "string option"

record protocol_raw =
  pr_inflation :: string
  pr_totalActiveStake :: string
  pr_totalSupply :: string
  pr_participationRate :: string
  pr_currentRound_id :: string
  pr_currentRound_mintableTokens :: string
  pr_lptPriceEth :: string

subsection \<open>Claims\<close>

text \<open>The object that \<^verbatim>\<open>loadDelegator\<close> makes of one claim; \<open>c_r\<close> is the label
  \<^verbatim>\<open>`${startR}<sep>${endR}`\<close>.\<close>

record claim =
  c_r :: string
  c_lpt :: num
  c_eth :: num
  c_ts :: int
  c_rounds :: int
  c_delegate :: "string option"

definition mk_claim :: "js_text \<Rightarrow> claim_raw \<Rightarrow> claim" where
  "mk_claim J c =
     (let startR = cr_startRound c;
          endR = cr_endRound c;
          rounds = max (endR - startR + 1) 1
      in \<lparr> c_r = toString J startR @ rounds_sep @ toString J endR,
           c_lpt = Number (cr_rewardTokens c),
           c_eth = Number (cr_fees c),
           c_ts = cr_timestamp c,
           c_rounds = rounds,
           c_delegate = cr_delegate c \<rparr>)"

subsection \<open>The events timeline\<close>

text \<open>One entry of the \<^verbatim>\<open>events\<close> array; \<open>e_to\<close> is present on bond entries only.\<close>

record timeline_entry =
  e_t :: string
  e_ts :: int
  e_round :: int
  e_desc :: string
  e_val :: string
  e_to :: "string option"

text \<open>\<^verbatim>\<open>isRebond = Number(e.additionalAmount) === 0 && e.oldDelegate\<close>\<close>

definition bond_entry :: "js_text \<Rightarrow> bond_raw \<Rightarrow> timeline_entry" where
  "bond_entry J e =
     (let isRebond = (Number (br_additionalAmount e) = Fin 0 \<and> br_oldDelegate e \<noteq> None)
      in \<lparr> e_t = (if isRebond then ''redelegate'' else ''bond''),
           e_ts = br_timestamp e,
           e_round = br_round e,
           e_desc = (if isRebond
                     then ''Moved delegation to '' @ fmtAddr (br_newDelegate e)
                     else ''Bonded '' @ fmtN J (Number (br_additionalAmount e)) 2 @ '' LPT''),
           e_val = fmtN J (Number (br_additionalAmount e)) 2 @ '' LPT'',
           e_to = Some (fmtAddr (br_newDelegate e)) \<rparr>)"

definition unbond_entry :: "js_text \<Rightarrow> amount_raw \<Rightarrow> timeline_entry" where
  "unbond_entry J e =
     \<lparr> e_t = ''unbond'', e_ts = ar_timestamp e, e_round = ar_round e,
       e_desc = ''Unbonded '' @ fmtN J (Number (ar_amount e)) 2 @ '' LPT'',
       e_val = fmtN J (Number (ar_amount e)) 2 @ '' LPT'', e_to = None \<rparr>"

definition rebond_entry :: "js_text \<Rightarrow> amount_raw \<Rightarrow> timeline_entry" where
  "rebond_entry J e =
     \<lparr> e_t = ''rebond'', e_ts = ar_timestamp e, e_round = ar_round e,
       e_desc = ''Rebonded '' @ fmtN J (Number (ar_amount e)) 2 @ '' LPT'',
       e_val = fmtN J (Number (ar_amount e)) 2 @ '' LPT'', e_to = None \<rparr>"

definition withdraw_entry :: "js_text \<Rightarrow> amount_raw \<Rightarrow> timeline_entry" where
  "withdraw_entry J e =
     \<lparr> e_t = ''withdraw'', e_ts = ar_timestamp e, e_round = ar_round e,
       e_desc = ''Withdrew '' @ fmtN J (Number (ar_amount e)) 2 @ '' LPT stake'',
       e_val = fmtN J (Number (ar_amount e)) 2 @ '' LPT'', e_to = None \<rparr>"

definition withdrawFees_entry :: "js_text \<Rightarrow> amount_raw \<Rightarrow> timeline_entry" where
  "withdrawFees_entry J e =
     \<lparr> e_t = ''withdrawFees'', e_ts = ar_timestamp e, e_round = ar_round e,
       e_desc = ''Withdrew '' @ fmtN J (Number (ar_amount e)) 6 @ '' ETH fees'',
       e_val = fmtN J (Number (ar_amount e)) 6 @ '' ETH'', e_to = None \<rparr>"

definition claim_entry :: "js_text \<Rightarrow> claim \<Rightarrow> timeline_entry" where
  "claim_entry J c =
     \<lparr> e_t = ''claim'', e_ts = c_ts c, e_round = 0,
       e_desc = ''Claimed '' @ fmtN J (c_lpt c) 2 @ '' LPT + '' @ fmtN J (c_eth c) 6
                @ '' ETH ('' @ c_r c @ '')'',
       e_val = fmtN J (c_lpt c) 2 @ '' LPT'', e_to = None \<rparr>"

text \<open>The entries in the order of the six \<^verbatim>\<open>forEach\<close> loops that push them.\<close>

definition stake_entries :: "js_text \<Rightarrow> events_raw \<Rightarrow> timeline_entry list" where
  "stake_entries J evtData =
     map (bond_entry J) (bondEvents evtData)
     @ map (unbond_entry J) (unbondEvents evtData)
     @ map (rebond_entry J) (rebondEvents evtData)
     @ map (withdraw_entry J) (withdrawStakeEvents evtData)
     @ map (withdrawFees_entry J) (withdrawFeesEvents evtData)"

definition pushed_entries :: "js_text \<Rightarrow> events_raw \<Rightarrow> claim list \<Rightarrow> timeline_entry list" where
  "pushed_entries J evtData cs = stake_entries J evtData @ map (claim_entry J) cs"

text \<open>
  \<^verbatim>\<open>events.sort((a, b) => a.ts - b.ts)\<close>. \<^verbatim>\<open>Array.prototype.sort\<close> is stable, and the
  comparator orders by \<open>ts\<close>, so the result is the stable sort on the key \<open>ts\<close>, which is
  what \<^const>\<open>sort_key\<close> (insertion sort from the right) computes.
\<close>

definition build_events :: "js_text \<Rightarrow> events_raw \<Rightarrow> claim list \<Rightarrow> timeline_entry list" where
  "build_events J evtData cs = sort_key e_ts (pushed_entries J evtData cs)"

subsection \<open>The dataset of one delegator\<close>

record dashboard_data =
  d_address :: string
  d_delegator :: delegator_raw
  d_claims :: "claim list"
  d_events :: "timeline_entry list"
  d_bondedAmount :: num
  d_totalFees :: num
  d_withdrawnFees :: num
  d_delegate :: "string option"
  d_earned :: num
  d_totalETH :: num
  d_totalRounds :: int

text \<open>The argument of \<^verbatim>\<open>setData\<close>; each \<^verbatim>\<open>reduce\<close> is a left fold from 0.\<close>

definition mk_data ::
  "js_text \<Rightarrow> string \<Rightarrow> delegator_raw \<Rightarrow> claim_raw list \<Rightarrow> events_raw \<Rightarrow> dashboard_data" where
  "mk_data J addr del earnData evtData =
     (let cs = map (mk_claim J) earnData;
          evs = build_events J evtData cs
      in \<lparr> d_address = addr,
           d_delegator = del,
           d_claims = cs,
           d_events = evs,
           d_bondedAmount = Number (dr_bondedAmount del),
           d_totalFees = Number (dr_fees del),
           d_withdrawnFees = Number (dr_withdrawnFees del),
           d_delegate = dr_delegate del,
           d_earned = foldl (\<lambda>s c. fadd s (c_lpt c)) (Fin 0) cs,
           d_totalETH = foldl (\<lambda>s c. fadd s (c_eth c)) (Fin 0) cs,
           d_totalRounds = foldl (\<lambda>s c. s + c_rounds c) 0 cs \<rparr>)"

subsection \<open>Derived data of the component body\<close>

text \<open>\<^verbatim>\<open>data?.claims || []\<close>, \<^verbatim>\<open>data?.earned || 0\<close> and so on: without a dataset the
  default, with one the field, unless it is falsy.\<close>

definition claims :: "dashboard_data option \<Rightarrow> claim list" where
  "claims D = (case D of None \<Rightarrow> [] | Some d \<Rightarrow> d_claims d)"

definition earned :: "dashboard_data option \<Rightarrow> num" where
  "earned D = (case D of None \<Rightarrow> Fin 0 | Some d \<Rightarrow> or_zero (d_earned d))"

definition totalETH :: "dashboard_data option \<Rightarrow> num" where
  "totalETH D = (case D of None \<Rightarrow> Fin 0 | Some d \<Rightarrow> or_zero (d_totalETH d))"

definition totalRounds :: "dashboard_data option \<Rightarrow> int" where
  "totalRounds D = (case D of None \<Rightarrow> 0 | Some d \<Rightarrow> d_totalRounds d)"

definition bondedAmount :: "dashboard_data option \<Rightarrow> num" where
  "bondedAmount D = (case D of None \<Rightarrow> Fin 0 | Some d \<Rightarrow> or_zero (d_bondedAmount d))"

definition principal :: "dashboard_data option \<Rightarrow> num" where
  "principal D = fsub (bondedAmount D) (earned D)"

text \<open>\<^verbatim>\<open>roi = bondedAmount > 0 ? ((earned / Math.max(principal, 1)) * 100) : 0\<close>\<close>

definition roi :: "dashboard_data option \<Rightarrow> num" where
  "roi D = (if num_lt (Fin 0) (bondedAmount D)
            then fmul (fdiv (earned D) (fmax (principal D) (Fin 1))) (Fin 100)
            else Fin 0)"

text \<open>One point of \<^verbatim>\<open>cumData\<close>.\<close>

record cum_point =
  p_date :: string
  p_lpt :: num
  p_eth :: num
  p_claimLPT :: num
  p_claimETH :: num

text \<open>The \<^verbatim>\<open>claims.map\<close> that updates the two running totals \<open>cl\<close> and \<open>ce\<close> as it goes.\<close>

fun cum_from :: "js_text \<Rightarrow> num \<Rightarrow> num \<Rightarrow> claim list \<Rightarrow> cum_point list" where
  "cum_from J cl ce [] = []"
| "cum_from J cl ce (c # cs) =
     (let cl' = fadd cl (c_lpt c);
          ce' = fadd ce (c_eth c)
      in \<lparr> p_date = fmtM J (c_ts c),
           p_lpt = toFixed_num 2 cl',
           p_eth = toFixed_num 5 ce',
           p_claimLPT = c_lpt c,
           p_claimETH = c_eth c \<rparr> # cum_from J cl' ce' cs)"

definition cumData :: "js_text \<Rightarrow> dashboard_data option \<Rightarrow> cum_point list" where
  "cumData J D = (if claims D \<noteq> [] then cum_from J (Fin 0) (Fin 0) (claims D) else [])"

subsection \<open>Orchestrators\<close>

text \<open>One row of \<^verbatim>\<open>orchData\<close>; \<open>o_sparkline\<close> holds the pairs \<open>(d, v)\<close> of day and volume.\<close>

record orch =
  o_id :: string
  o_rewardCut :: num
  o_feeShare :: num
  o_stake :: num
  o_eth30d :: num
  o_eth90d :: num
  o_totalETH :: num
  o_rewardAPY :: num
  o_ethYieldPerLPT :: num
  o_delegatorFees30d :: num
  o_isWorking :: bool
  o_lastRewardRound :: "string option"
  o_callingReward :: bool
  o_sparkline :: "(int \<times> num) list option"

text \<open>The body of \<^verbatim>\<open>tData.transcoders.map\<close>, with \<open>mintable\<close>, \<open>totalActive\<close> and
  \<open>currentRoundId\<close> read from the protocol payload before the loop.\<close>

definition mk_orch :: "num \<Rightarrow> num \<Rightarrow> string \<Rightarrow> transcoder_raw \<Rightarrow> orch" where
  "mk_orch mintable totalActive currentRoundId t =
     (let stake = Number (tr_totalStake t);
          rewardCut = Number (tr_rewardCut t);
          feeShare = Number (tr_feeShare t);
          eth30d = Number (tr_thirtyDayVolumeETH t);
          eth90d = Number (tr_ninetyDayVolumeETH t);
          baseYield = (if num_lt (Fin 0) totalActive then fdiv mintable totalActive else Fin 0);
          delegatorYield = fmul baseYield (fsub (Fin 1) (fdiv rewardCut (Fin 1000000)));
          rewardAPY = fmul (fmul delegatorYield (Fin 365)) (Fin 100);
          delegatorFees30d = fmul eth30d (fdiv feeShare (Fin 1000000));
          ethYieldPerLPT = (if num_lt (Fin 0) stake
                            then fmul (fdiv delegatorFees30d stake) (Fin 12) else Fin 0)
      in \<lparr> o_id = tr_id t,
           o_rewardCut = rewardCut,
           o_feeShare = feeShare,
           o_stake = stake,
           o_eth30d = eth30d,
           o_eth90d = eth90d,
           o_totalETH = Number (tr_totalVolumeETH t),
           o_rewardAPY = rewardAPY,
           o_ethYieldPerLPT = ethYieldPerLPT,
           o_delegatorFees30d = delegatorFees30d,
           o_isWorking = num_lt (Fin 0) eth30d,
           o_lastRewardRound = tr_lastRewardRound t,
           o_callingReward = (tr_lastRewardRound t = Some currentRoundId),
           o_sparkline = None \<rparr>)"

record protocol_data =
  pd_inflation :: num
  pd_totalActiveStake :: num
  pd_totalSupply :: num
  pd_participationRate :: num
  pd_currentRound :: string
  pd_lptPriceEth :: num

definition mk_protocolData :: "protocol_raw \<Rightarrow> protocol_data" where
  "mk_protocolData protocol =
     \<lparr> pd_inflation = Number (pr_inflation protocol),
       pd_totalActiveStake = Number (pr_totalActiveStake protocol),
       pd_totalSupply = Number (pr_totalSupply protocol),
       pd_participationRate = Number (pr_participationRate protocol),
       pd_currentRound = pr_currentRound_id protocol,
       pd_lptPriceEth = Number (pr_lptPriceEth protocol) \<rparr>"

subsection \<open>The network\<close>

text \<open>The queries that \<^verbatim>\<open>gqlFetch\<close> can be asked, named after what they select.\<close>

datatype request =
    Q_delegator string
  | Q_earnings string
  | Q_events string
  | Q_transcoders
  | Q_protocol
  | Q_domains string
  | Q_domains_in "string list"
  | Q_transcoderDays "string list"

text \<open>
  What the indexing service answers while one handler runs. An answer is the rejection
  message (a transport failure, or the first entry of \<^verbatim>\<open>json.errors\<close>) or the payload
  \<^verbatim>\<open>json.data\<close>, reduced to the part the caller reads: for a domain query
  \<^verbatim>\<open>data?.domains?.[0]?.resolvedAddress?.id\<close>, for the profile \<^verbatim>\<open>delData.delegator\<close>, for
  the earnings \<^verbatim>\<open>earnData.earningsClaimedEvents || []\<close>. \<open>settled_at\<close> is the time at which
  the promise of a request settles.
\<close>

record network =
  domains_answer :: "string \<Rightarrow> string + string option"
  delegator_answer :: "string \<Rightarrow> string + delegator_raw option"
  earnings_answer :: "string \<Rightarrow> string + claim_raw list"
  events_answer :: "string \<Rightarrow> string + events_raw"
  transcoders_answer :: "string + transcoder_raw list"
  protocol_answer :: "string + protocol_raw"
  settled_at :: "request \<Rightarrow> nat"

text \<open>
  \<^verbatim>\<open>Promise.all\<close> of two promises, each given with the time at which it settles: fulfilled
  with both values once both are, rejected with the reason of the one that rejects first.
  \<^verbatim>\<open>Promise.all([p, q, r])\<close> is \<open>promise_all p (promise_all q r)\<close>.
\<close>

definition promise_all ::
  "nat \<times> (string + 'a) \<Rightarrow> nat \<times> (string + 'b) \<Rightarrow> nat \<times> (string + 'a \<times> 'b)" where
  "promise_all p q =
     (case snd p of
        Inr a \<Rightarrow> (case snd q of
                    Inr b \<Rightarrow> (max (fst p) (fst q), Inr (a, b))
                  | Inl m' \<Rightarrow> (fst q, Inl m'))
      | Inl m \<Rightarrow> (case snd q of
                    Inr b \<Rightarrow> (fst p, Inl m)
                  | Inl m' \<Rightarrow> (if fst p \<le> fst q then (fst p, Inl m) else (fst q, Inl m'))))"

subsection \<open>Input strings\<close>

text \<open>\<^verbatim>\<open>toLowerCase\<close> on the code units 0..255: A to Z, and the capital letters of Latin-1
  (0xC0 to 0xDE without the multiplication sign), move up by 32.\<close>

definition lower_char :: "char \<Rightarrow> char" where
  "lower_char c =
     (let n = (of_char c :: nat)
      in if (65 \<le> n \<and> n \<le> 90) \<or> (192 \<le> n \<and> n \<le> 222 \<and> n \<noteq> 215)
         then char_of (n + 32) else c)"

definition toLowerCase :: "string \<Rightarrow> string" where
  "toLowerCase s = map lower_char s"

definition endsWith :: "string \<Rightarrow> string \<Rightarrow> bool" where
  "endsWith s suf = (length suf \<le> length s \<and> drop (length s - length suf) s = suf)"

text \<open>The test \<^verbatim>\<open>/^0x[a-f0-9]{40}$/\<close>.\<close>

definition is_hex_lower :: "char \<Rightarrow> bool" where
  "is_hex_lower c =
     (let n = (of_char c :: nat) in (48 \<le> n \<and> n \<le> 57) \<or> (97 \<le> n \<and> n \<le> 102))"

definition is_address :: "string \<Rightarrow> bool" where
  "is_address s = (length s = 42 \<and> take 2 s = ''0x'' \<and> list_all is_hex_lower (drop 2 s))"

definition msg_invalid_input :: string where
  "msg_invalid_input = ''Please enter a valid Ethereum address (0x...) or ENS name (.eth)''"

definition msg_no_delegator :: string where
  "msg_no_delegator =
     ''No delegator found at this address. Make sure the wallet has delegated LPT on Livepeer (Arbitrum).''"

definition msg_ens_unresolved :: "string \<Rightarrow> string" where
  "msg_ens_unresolved name =
     ''Could not resolve ENS name '' @ [CHR 0x22] @ name @ [CHR 0x22]
     @ ''. Make sure it'' @ [CHR 0x27] @ ''s a valid .eth name.''"

subsection \<open>The component state\<close>

text \<open>The columns whose header can be clicked to sort (\<open>sortable\<close> in the table header):
  all of them hold numbers.\<close>

datatype sort_col = RewardAPY | Eth30d | EthYieldPerLPT | RewardCut | FeeShare | Stake

record orch_sort =
  col :: sort_col
  dir :: string

text \<open>
  The \<^verbatim>\<open>useState\<close> cells of \<^verbatim>\<open>LivepeerDashboard\<close>, and two parts of the world around the
  component: the \<^verbatim>\<open>address\<close> parameter of the page URL and the log of the queries sent
  so far.
\<close>

record app =
  wallet :: string
  inputVal :: string
  loading :: bool
  error :: string
  data :: "dashboard_data option"
  tab :: string
  metric :: string
  shown :: bool
  orchData :: "orch list option"
  orchLoading :: bool
  orchFilter :: string
  orchSort :: orch_sort
  ensNames :: "string \<rightharpoonup> string"
  protocolData :: "protocol_data option"
  simStake :: num
  simCustom :: bool
  url_address :: "string option"
  requests :: "request list"

subsection \<open>Looking a delegator up\<close>

text \<open>\<^verbatim>\<open>resolveENS\<close>: the address is missing when any link of the optional chain is, and an
  empty string is as good as missing.\<close>

definition resolveENS :: "network \<Rightarrow> string \<Rightarrow> string + string" where
  "resolveENS N name =
     (case domains_answer N (toLowerCase name) of
        Inl m \<Rightarrow> Inl m
      | Inr None \<Rightarrow> Inl (msg_ens_unresolved name)
      | Inr (Some addr) \<Rightarrow> (if addr = [] then Inl (msg_ens_unresolved name) else Inr addr))"

text \<open>The first statement of the \<^verbatim>\<open>try\<close> block: the address of the input, or the message of
  the error thrown.\<close>

definition resolve_input :: "network \<Rightarrow> string \<Rightarrow> string + string" where
  "resolve_input N input =
     (if endsWith input ''.eth'' then resolveENS N input
      else (let addr = toLowerCase input
            in if \<not> is_address addr then Inl msg_invalid_input else Inr addr))"

text \<open>The queries that this statement sends: the domain query of \<^verbatim>\<open>resolveENS\<close>, if any.\<close>

definition resolve_requests :: "string \<Rightarrow> request list" where
  "resolve_requests input =
     (if endsWith input ''.eth'' then [Q_domains (toLowerCase input)] else [])"

text \<open>The three queries under one \<^verbatim>\<open>Promise.all\<close>.\<close>

definition fetch_delegator ::
  "network \<Rightarrow> string \<Rightarrow> string + delegator_raw option \<times> claim_raw list \<times> events_raw" where
  "fetch_delegator N addr =
     snd (promise_all (settled_at N (Q_delegator addr), delegator_answer N addr)
           (promise_all (settled_at N (Q_earnings addr), earnings_answer N addr)
                        (settled_at N (Q_events addr), events_answer N addr)))"

text \<open>The \<^verbatim>\<open>try\<close> block of \<^verbatim>\<open>loadDelegator\<close>: \<open>Some msg\<close> when it throws. The timer that
  sets \<open>shown\<close> again 50 ms later is the handler \<open>show_timer\<close>.\<close>

definition try_block :: "js_text \<Rightarrow> network \<Rightarrow> string \<Rightarrow> app \<Rightarrow> string option \<times> app" where
  "try_block J N input s =
     (let s1 = s\<lparr>requests := requests s @ resolve_requests input\<rparr>
      in case resolve_input N input of
           Inl m \<Rightarrow> (Some m, s1)
         | Inr addr \<Rightarrow>
             (let s2 = s1\<lparr>requests := requests s1
                                       @ [Q_delegator addr, Q_earnings addr, Q_events addr]\<rparr>
              in case fetch_delegator N addr of
                   Inl m \<Rightarrow> (Some m, s2)
                 | Inr (delData, earnData, evtData) \<Rightarrow>
                     (case delData of
                        None \<Rightarrow> (Some msg_no_delegator, s2)
                      | Some del \<Rightarrow>
                          (None, s2\<lparr> data := Some (mk_data J addr del earnData evtData),
                                     wallet := addr,
                                     tab := ''dash'',
                                     shown := False,
                                     simStake := Number (dr_bondedAmount del),
                                     simCustom := False,
                                     url_address := Some addr \<rparr>))))"

definition loadDelegator :: "js_text \<Rightarrow> network \<Rightarrow> string \<Rightarrow> app \<Rightarrow> app" where
  "loadDelegator J N address s =
     (let input = trim address
      in if input = [] then s
         else (case try_block J N input
                      (s\<lparr>loading := True, error := [], data := None, orchData := None\<rparr>) of
                 (Some m, s') \<Rightarrow> s'\<lparr>error := m, loading := False\<rparr>
               | (None, s') \<Rightarrow> s'\<lparr>loading := False\<rparr>))"

definition show_timer :: "app \<Rightarrow> app" where
  "show_timer s = s\<lparr>shown := True\<rparr>"

subsection \<open>Loading the orchestrator comparison\<close>

text \<open>
  \<^verbatim>\<open>loadOrchestrators\<close> up to the \<^verbatim>\<open>finally\<close>: an array, even an empty one, is truthy in
  \<^verbatim>\<open>if (orchData) return\<close>. A failure is written to the console only. The two background
  queries (names, 30-day trend) are sent and logged; what their answers later write into
  \<open>ensNames\<close> and into the \<open>sparkline\<close> fields is not part of this handler.
\<close>

definition loadOrchestrators :: "network \<Rightarrow> app \<Rightarrow> app" where
  "loadOrchestrators N s =
     (if orchData s \<noteq> None then s
      else
        (let s1 = s\<lparr>orchLoading := True, requests := requests s @ [Q_transcoders, Q_protocol]\<rparr>
         in case snd (promise_all (settled_at N Q_transcoders, transcoders_answer N)
                                  (settled_at N Q_protocol, protocol_answer N)) of
              Inl m \<Rightarrow> s1\<lparr>orchLoading := False\<rparr>
            | Inr (tData, protocol) \<Rightarrow>
                (let mintable = Number (pr_currentRound_mintableTokens protocol);
                     totalActive = Number (pr_totalActiveStake protocol);
                     currentRoundId = pr_currentRound_id protocol;
                     orchs = map (mk_orch mintable totalActive currentRoundId) tData;
                     addresses = map o_id orchs;
                     workingIds = map o_id (filter o_isWorking orchs)
                 in s1\<lparr> protocolData := Some (mk_protocolData protocol),
                         orchData := Some orchs,
                         requests := requests s1 @ [Q_domains_in (map toLowerCase addresses)]
                                     @ (if workingIds \<noteq> [] then [Q_transcoderDays workingIds] else []),
                         orchLoading := False \<rparr>)))"

text \<open>The effect on \<^verbatim>\<open>[tab, data]\<close>.\<close>

definition compare_effect :: "network \<Rightarrow> app \<Rightarrow> app" where
  "compare_effect N s =
     (if tab s = ''compare'' \<and> data s \<noteq> None \<and> orchData s = None \<and> \<not> orchLoading s
      then loadOrchestrators N s else s)"

text \<open>A click on a tab chip: \<^verbatim>\<open>setTab(k)\<close>, and the effect when the tab has changed.\<close>

definition click_tab :: "network \<Rightarrow> string \<Rightarrow> app \<Rightarrow> app" where
  "click_tab N k s = (if tab s = k then s else compare_effect N (s\<lparr>tab := k\<rparr>))"

subsection \<open>The comparison table and its export\<close>

definition effectiveStake :: "app \<Rightarrow> num" where
  "effectiveStake s = (if simCustom s then simStake s else bondedAmount (data s))"

definition col_value :: "sort_col \<Rightarrow> orch \<Rightarrow> num" where
  "col_value c orc =
     (case c of RewardAPY \<Rightarrow> o_rewardAPY orc | Eth30d \<Rightarrow> o_eth30d orc
      | EthYieldPerLPT \<Rightarrow> o_ethYieldPerLPT orc | RewardCut \<Rightarrow> o_rewardCut orc
      | FeeShare \<Rightarrow> o_feeShare orc | Stake \<Rightarrow> o_stake orc)"

text \<open>
  \<^verbatim>\<open>Array.prototype.sort\<close> with a comparator that returns a number: the sort is stable,
  \<open>a\<close> goes behind \<open>b\<close> when the comparator is positive on \<open>(a, b)\<close>, and a \<open>NaN\<close> counts
  as 0. Insertion from the right computes the one stable order of a consistent comparator;
  where a comparator is not consistent the standard leaves the order to the engine, and
  this is one of the orders it may produce.
\<close>

fun insert_by :: "('a \<Rightarrow> 'a \<Rightarrow> num) \<Rightarrow> 'a \<Rightarrow> 'a list \<Rightarrow> 'a list" where
  "insert_by cmp x [] = [x]"
| "insert_by cmp x (y # ys) =
     (if num_lt (Fin 0) (cmp x y) then y # insert_by cmp x ys else x # y # ys)"

definition sort_by :: "('a \<Rightarrow> 'a \<Rightarrow> num) \<Rightarrow> 'a list \<Rightarrow> 'a list" where
  "sort_by cmp xs = foldr (insert_by cmp) xs []"

text \<open>\<^verbatim>\<open>(orchData || []).filter(...).sort((a, b) => (a[col] - b[col]) * mult)\<close>\<close>

definition filteredOrchs :: "app \<Rightarrow> orch list" where
  "filteredOrchs s =
     (let mult = (if dir (orchSort s) = ''desc'' then Fin (- 1) else Fin 1)
      in sort_by (\<lambda>a b. fmul (fsub (col_value (col (orchSort s)) a)
                                     (col_value (col (orchSort s)) b)) mult)
           (filter (\<lambda>orc. orchFilter s = ''all'' \<or> o_isWorking orc)
              (case orchData s of None \<Rightarrow> [] | Some os \<Rightarrow> os)))"

definition csv_headers :: "string list" where
  "csv_headers =
     [''Orchestrator'', ''ENS Name'', ''Reward APY %'', ''30d ETH Fees'', ''ETH/LPT/yr'',
      ''Reward Cut %'', ''Fee Share %'', ''Total Stake'', ''Reward Calling'', ''Est LPT/yr'',
      ''Est ETH/yr'']"

definition csv_row :: "js_text \<Rightarrow> (string \<rightharpoonup> string) \<Rightarrow> num \<Rightarrow> orch \<Rightarrow> string list" where
  "csv_row J names stake orc =
     [o_id orc,
      (case names (o_id orc) of None \<Rightarrow> [] | Some n \<Rightarrow> n),
      toFixed J (o_rewardAPY orc) 2,
      toFixed J (o_eth30d orc) 4,
      toFixed J (o_ethYieldPerLPT orc) 6,
      toFixed J (fdiv (o_rewardCut orc) (Fin 10000)) 2,
      toFixed J (fdiv (o_feeShare orc) (Fin 10000)) 2,
      toFixed J (o_stake orc) 0,
      (if o_callingReward orc then ''Yes'' else ''No''),
      toFixed J (fdiv (fmul stake (o_rewardAPY orc)) (Fin 100)) 2,
      toFixed J (fmul stake (o_ethYieldPerLPT orc)) 6]"

text \<open>\<^verbatim>\<open>[headers, ...rows]\<close>\<close>

definition csv_table :: "js_text \<Rightarrow> orch list \<Rightarrow> (string \<rightharpoonup> string) \<Rightarrow> num \<Rightarrow> string list list" where
  "csv_table J orchs names stake = csv_headers # map (csv_row J names stake) orchs"

text \<open>\<^verbatim>\<open>Array.prototype.join\<close> on strings.\<close>

fun join :: "string \<Rightarrow> string list \<Rightarrow> string" where
  "join sep [] = []"
| "join sep [x] = x"
| "join sep (x # y # ys) = x @ sep @ join sep (y # ys)"

text \<open>\<^verbatim>\<open>exportCSV\<close>: the name and the text of the file handed to the browser for download.\<close>

definition exportCSV :: "js_text \<Rightarrow> orch list \<Rightarrow> (string \<rightharpoonup> string) \<Rightarrow> num \<Rightarrow> string \<times> string" where
  "exportCSV J orchs names stake =
     (let csv = join [CHR 0x0A] (map (join '','') (csv_table J orchs names stake))
      in (''livepeer-orchestrators.csv'', csv))"

text \<open>The \<^verbatim>\<open>onClick\<close> of the export button.\<close>

definition click_export :: "js_text \<Rightarrow> app \<Rightarrow> string \<times> string" where
  "click_export J s = exportCSV J (filteredOrchs s) (ensNames s) (effectiveStake s)"

subsection \<open>Concrete inputs\<close>

text \<open>A runtime whose formatting routines print nothing: no property below depends on the
  text of a number or of a date.\<close>

definition plain_text :: js_text where
  "plain_text = \<lparr> toLocaleString = (\<lambda>n d. []), toFixed = (\<lambda>n d. []),
                   toString = (\<lambda>i. []), toLocaleDateString_month = (\<lambda>ts. []) \<rparr>"

definition addr_a :: string where
  "addr_a = ''0x'' @ replicate 40 (CHR ''a'')"

definition addr_b :: string where
  "addr_b = ''0x'' @ replicate 40 (CHR ''b'')"

definition orch_1 :: string where
  "orch_1 = ''0x'' @ replicate 40 (CHR ''1'')"

definition orch_2 :: string where
  "orch_2 = ''0x'' @ replicate 40 (CHR ''2'')"

definition raw_claim :: "int \<Rightarrow> int \<Rightarrow> int \<Rightarrow> string \<Rightarrow> string \<Rightarrow> claim_raw" where
  "raw_claim ts startR endR reward fee =
     \<lparr> cr_timestamp = ts, cr_startRound = startR, cr_endRound = endR,
       cr_rewardTokens = reward, cr_fees = fee, cr_delegate = Some orch_1 \<rparr>"

definition profile :: "string \<Rightarrow> string \<Rightarrow> delegator_raw" where
  "profile a bonded =
     \<lparr> dr_id = a, dr_bondedAmount = bonded, dr_fees = ''0'', dr_withdrawnFees = ''0'',
       dr_startRound = 1, dr_delegate = Some orch_1 \<rparr>"

definition no_events :: events_raw where
  "no_events = \<lparr> bondEvents = [], unbondEvents = [], rebondEvents = [],
                  withdrawStakeEvents = [], withdrawFeesEvents = [] \<rparr>"

text \<open>1000 LPT bonded, claims of 5 LPT for round 10 and of 20 LPT for rounds 11 to 15.\<close>

definition data_two_claims :: dashboard_data where
  "data_two_claims =
     mk_data plain_text addr_a (profile addr_a ''1000'')
       [raw_claim 1700000000 10 10 ''5'' ''0.001'', raw_claim 1700086400 11 15 ''20'' ''0.004'']
       no_events"

text \<open>50 LPT bonded after 80 LPT were claimed.\<close>

definition data_50_80 :: dashboard_data where
  "data_50_80 =
     mk_data plain_text addr_a (profile addr_a ''50'')
       [raw_claim 1700000000 10 20 ''80'' ''0''] no_events"

text \<open>Everything unbonded after 80 LPT were claimed.\<close>

definition data_unbonded :: dashboard_data where
  "data_unbonded =
     mk_data plain_text addr_a (profile addr_a ''0'')
       [raw_claim 1700000000 10 20 ''80'' ''0''] no_events"

text \<open>One claim of 1.234567 LPT.\<close>

definition data_fraction :: dashboard_data where
  "data_fraction =
     mk_data plain_text addr_a (profile addr_a ''1000'')
       [raw_claim 1700000000 10 10 ''1.234567'' ''0''] no_events"

text \<open>Claims of 0.1 LPT and of 0.2 LPT.\<close>

definition data_tenths :: dashboard_data where
  "data_tenths =
     mk_data plain_text addr_a (profile addr_a ''1000'')
       [raw_claim 1700000000 10 10 ''0.1'' ''0'', raw_claim 1700086400 11 11 ''0.2'' ''0'']
       no_events"

text \<open>A bond, a fee withdrawal and two claims at time 100, after an unbond at time 50.\<close>

definition mixed_events :: events_raw where
  "mixed_events =
     \<lparr> bondEvents = [\<lparr> br_timestamp = 100, br_round = 10, br_additionalAmount = ''1000'',
                       br_newDelegate = orch_1, br_oldDelegate = None \<rparr>],
       unbondEvents = [\<lparr> ar_timestamp = 50, ar_round = 5, ar_amount = ''10'' \<rparr>],
       rebondEvents = [],
       withdrawStakeEvents = [],
       withdrawFeesEvents = [\<lparr> ar_timestamp = 100, ar_round = 10, ar_amount = ''1'' \<rparr>] \<rparr>"

definition mixed_claims :: "claim list" where
  "mixed_claims =
     map (mk_claim plain_text) [raw_claim 100 8 9 ''5'' ''0'', raw_claim 100 10 10 ''7'' ''0'']"

text \<open>Two orchestrators; the first has the reward cut 100000 of the yield scenario.\<close>

definition transcoder_1 :: transcoder_raw where
  "transcoder_1 =
     \<lparr> tr_id = orch_1, tr_rewardCut = ''100000'', tr_feeShare = ''500000'',
       tr_totalStake = ''20000'', tr_thirtyDayVolumeETH = ''4'', tr_ninetyDayVolumeETH = ''10'',
       tr_totalVolumeETH = ''30'', tr_lastRewardRound = Some ''3000'' \<rparr>"

definition transcoder_2 :: transcoder_raw where
  "transcoder_2 =
     \<lparr> tr_id = orch_2, tr_rewardCut = ''250000'', tr_feeShare = ''0'', tr_totalStake = ''0'',
       tr_thirtyDayVolumeETH = ''0'', tr_ninetyDayVolumeETH = ''0'', tr_totalVolumeETH = ''0'',
       tr_lastRewardRound = None \<rparr>"

definition protocol_1 :: protocol_raw where
  "protocol_1 =
     \<lparr> pr_inflation = ''500'', pr_totalActiveStake = ''100000'', pr_totalSupply = ''30000000'',
       pr_participationRate = ''0.5'', pr_currentRound_id = ''3000'',
       pr_currentRound_mintableTokens = ''1000'', pr_lptPriceEth = ''0.002'' \<rparr>"

text \<open>A service that knows the delegators \<open>addr_a\<close> and \<open>addr_b\<close> and the name
  \<open>alice.eth\<close>, and answers every query at once.\<close>

definition net_ok :: network where
  "net_ok =
     \<lparr> domains_answer = (\<lambda>name. Inr (if name = ''alice.eth'' then Some addr_a else None)),
       delegator_answer =
         (\<lambda>a. Inr (if a = addr_a then Some (profile addr_a ''1000'')
                    else if a = addr_b then Some (profile addr_b ''50'') else None)),
       earnings_answer =
         (\<lambda>a. Inr (if a = addr_a
                    then [raw_claim 1700000000 10 10 ''5'' ''0.001'',
                          raw_claim 1700086400 11 15 ''20'' ''0.004'']
                    else [])),
       events_answer = (\<lambda>a. Inr no_events),
       transcoders_answer = Inr [transcoder_1, transcoder_2],
       protocol_answer = Inr protocol_1,
       settled_at = (\<lambda>q. 0) \<rparr>"

text \<open>The same service with the events query failing.\<close>

definition net_events_down :: network where
  "net_events_down = net_ok\<lparr>events_answer := (\<lambda>a. Inl ''indexer unavailable'')\<rparr>"

text \<open>The state of the component when it is mounted.\<close>

definition app_init :: app where
  "app_init =
     \<lparr> wallet = [], inputVal = [], loading = False, error = [], data = None, tab = ''dash'',
       metric = ''lpt'', shown = False, orchData = None, orchLoading = False,
       orchFilter = ''working'', orchSort = \<lparr> col = RewardAPY, dir = ''desc'' \<rparr>,
       ensNames = Map.empty, protocolData = None, simStake = Fin 0, simCustom = False,
       url_address = None, requests = [] \<rparr>"

text \<open>The state after \<open>addr_a\<close> was looked up and the comparison view was opened.\<close>

definition app_compared :: app where
  "app_compared =
     click_tab net_ok ''compare'' (loadDelegator plain_text net_ok addr_a app_init)"

section \<open>Properties\<close>

subsection \<open>Rounding to binary64\<close>

lemma rhe_of_int: "round_half_even (of_int k) = k"
  by (simp add: round_half_even_def)

lemma rhe_lower: "\<lfloor>x\<rfloor> \<le> round_half_even x"
  by (simp add: round_half_even_def Let_def)

lemma rhe_upper: "round_half_even x \<le> \<lfloor>x\<rfloor> + 1"
  by (simp add: round_half_even_def Let_def)

lemma rhe_mono: "x \<le> y \<Longrightarrow> round_half_even x \<le> round_half_even y"
proof -
  assume xy: "x \<le> y"
  then have f: "\<lfloor>x\<rfloor> \<le> \<lfloor>y\<rfloor>" by (rule floor_mono)
  show ?thesis
  proof (cases "\<lfloor>x\<rfloor> = \<lfloor>y\<rfloor>")
    case True
    then show ?thesis using xy by (auto simp: round_half_even_def Let_def)
  next
    case False
    then have "\<lfloor>x\<rfloor> + 1 \<le> \<lfloor>y\<rfloor>" using f by simp
    then show ?thesis using rhe_upper [of x] rhe_lower [of y] by linarith
  qed
qed

lemma rhe_le: "x \<le> of_int k \<Longrightarrow> round_half_even x \<le> k"
  using rhe_mono [of x "of_int k"] by (simp add: rhe_of_int)

lemma rhe_ge: "of_int k \<le> x \<Longrightarrow> k \<le> round_half_even x"
  using rhe_mono [of "of_int k" x] by (simp add: rhe_of_int)

lemma pow2_nat: "0 \<le> k \<Longrightarrow> (2::rat) ^ nat k = 2 powi k"
  by (simp add: power_int_def)

lemma ilog2_bounds:
  assumes "0 < q"
  shows "2 powi ilog2 q \<le> q" and "q < 2 powi (ilog2 q + 1)"
proof -
  obtain a b where ab: "quotient_of q = (a, b)" by (cases "quotient_of q")
  then have b: "0 < b" and q: "q = of_int a / of_int b"
    by (simp_all add: quotient_of_denom_pos quotient_of_div)
  with assms have a: "0 < a" by (simp add: zero_less_divide_iff)
  let ?la = "bitlen a" and ?lb = "bitlen b"
  have la: "1 \<le> ?la" and lb: "1 \<le> ?lb"
    using a b bitlen_eq_zero_iff [of a] bitlen_eq_zero_iff [of b] bitlen_nonneg [of a] bitlen_nonneg [of b]
    by linarith+
  have a1: "(2::rat) powi (?la - 1) \<le> of_int a" and a2: "of_int a < (2::rat) powi ?la"
  proof -
    from bitlen_bounds [OF a] have "(2::int) ^ nat (?la - 1) \<le> a" "a < 2 ^ nat ?la" by simp_all
    then have "(of_int ((2::int) ^ nat (?la - 1)) :: rat) \<le> of_int a" "(of_int a :: rat) < of_int (2 ^ nat ?la)"
      by (simp_all only: of_int_le_iff of_int_less_iff)
    then show "(2::rat) powi (?la - 1) \<le> of_int a" "of_int a < (2::rat) powi ?la"
      using la by (simp_all add: pow2_nat)
  qed
  have b1: "(2::rat) powi (?lb - 1) \<le> of_int b" and b2: "of_int b < (2::rat) powi ?lb"
  proof -
    from bitlen_bounds [OF b] have "(2::int) ^ nat (?lb - 1) \<le> b" "b < 2 ^ nat ?lb" by simp_all
    then have "(of_int ((2::int) ^ nat (?lb - 1)) :: rat) \<le> of_int b" "(of_int b :: rat) < of_int (2 ^ nat ?lb)"
      by (simp_all only: of_int_le_iff of_int_less_iff)
    then show "(2::rat) powi (?lb - 1) \<le> of_int b" "of_int b < (2::rat) powi ?lb"
      using lb by (simp_all add: pow2_nat)
  qed
  let ?e = "?la - ?lb"
  have bp: "(0::rat) < of_int b" using b by simp
  have up: "q < 2 powi (?e + 1)"
  proof -
    have "q < 2 powi ?la / of_int b" unfolding q using a2 bp by (simp add: divide_strict_right_mono)
    also have "\<dots> \<le> 2 powi ?la / 2 powi (?lb - 1)"
      using b1 by (intro frac_le) simp_all
    also have "\<dots> = 2 powi (?e + 1)"
      by (simp add: power_int_diff power_int_add)
    finally show ?thesis .
  qed
  have lo: "2 powi (?e - 1) < q"
  proof -
    have "(2::rat) powi (?e - 1) = 2 powi (?la - 1) / 2 powi ?lb"
      by (simp add: power_int_diff power_int_add)
    also have "\<dots> < 2 powi (?la - 1) / of_int b"
      using b2 bp by (intro frac_less2) simp_all
    also have "\<dots> \<le> q" unfolding q using a1 bp by (simp add: divide_right_mono)
    finally show ?thesis .
  qed
  show "2 powi ilog2 q \<le> q" using lo by (simp add: ilog2_def ab Let_def)
  show "q < 2 powi (ilog2 q + 1)" using up by (auto simp: ilog2_def ab Let_def not_le)
qed

lemma powi_less_cancel: "(2::rat) powi m < 2 powi n \<Longrightarrow> m < n"
proof (rule ccontr)
  assume a: "(2::rat) powi m < 2 powi n" and "\<not> m < n"
  then have "n \<le> m" by simp
  then have "(2::rat) powi n \<le> 2 powi m" by (intro power_int_increasing) simp_all
  with a show False by simp
qed

lemma ilog2_unique:
  assumes "2 powi k \<le> q" "q < 2 powi (k + 1)"
  shows "ilog2 q = k"
proof -
  have q: "0 < q" using assms(1) zero_less_power_int [of "2::rat" k] by linarith
  note b = ilog2_bounds [OF q]
  have "(2::rat) powi k < 2 powi (ilog2 q + 1)" using assms(1) b(2) by linarith
  then have "k < ilog2 q + 1" by (rule powi_less_cancel)
  moreover have "(2::rat) powi ilog2 q < 2 powi (k + 1)" using assms(2) b(1) by linarith
  then have "ilog2 q < k + 1" by (rule powi_less_cancel)
  ultimately show ?thesis by simp
qed

lemma ilog2_mono: "0 < x \<Longrightarrow> x \<le> y \<Longrightarrow> ilog2 x \<le> ilog2 y"
proof -
  assume x: "0 < x" and xy: "x \<le> y"
  then have y: "0 < y" by simp
  have "(2::rat) powi ilog2 x < 2 powi (ilog2 y + 1)"
    using ilog2_bounds(1) [OF x] ilog2_bounds(2) [OF y] xy by linarith
  then have "ilog2 x < ilog2 y + 1" by (rule powi_less_cancel)
  then show ?thesis by simp
qed

lemma ulp_pos: "0 < ulp q"
  by (simp add: ulp_def)

lemma nearest_nonneg: "0 \<le> q \<Longrightarrow> 0 \<le> nearest q"
proof -
  assume "0 \<le> q"
  then have "of_int 0 \<le> q / ulp q" using ulp_pos [of q] by simp
  then have "0 \<le> round_half_even (q / ulp q)" by (rule rhe_ge)
  then show ?thesis using ulp_pos [of q] by (simp add: nearest_def)
qed

lemma nearest_le_pow:
  assumes "0 < x"
  shows "nearest x \<le> 2 powi (max (ilog2 x) (- 1022) + 1)"
proof -
  let ?e = "max (ilog2 x) (- 1022)"
  have "x < 2 powi (ilog2 x + 1)" by (rule ilog2_bounds(2) [OF assms])
  also have "\<dots> \<le> 2 powi (?e + 1)" by (intro power_int_increasing) simp_all
  finally have "x / ulp x \<le> 2 powi (?e + 1) / ulp x"
    using ulp_pos [of x] by (simp add: divide_right_mono)
  also have "\<dots> = of_int (2 ^ 53)"
    by (simp add: ulp_def power_int_diff power_int_add)
  finally have "round_half_even (x / ulp x) \<le> 2 ^ 53" by (rule rhe_le)
  then have "(of_int (round_half_even (x / ulp x)) :: rat) \<le> of_int (2 ^ 53)"
    by (simp only: of_int_le_iff)
  then have "nearest x \<le> of_int (2 ^ 53) * ulp x"
    unfolding nearest_def using ulp_pos [of x] by (intro mult_right_mono) simp_all
  also have "\<dots> = 2 powi (?e + 1)"
    by (simp add: ulp_def power_int_diff power_int_add)
  finally show ?thesis .
qed

lemma nearest_ge_pow:
  assumes "0 < y" "- 1022 \<le> ilog2 y"
  shows "2 powi ilog2 y \<le> nearest y"
proof -
  have u: "ulp y = 2 powi (ilog2 y - 52)" using assms(2) by (simp add: ulp_def max_def)
  have "(of_int (2 ^ 52) :: rat) = 2 powi ilog2 y / ulp y"
    by (simp add: u power_int_diff)
  also have "\<dots> \<le> y / ulp y"
    using ilog2_bounds(1) [OF assms(1)] ulp_pos [of y] by (simp add: divide_right_mono)
  finally have "2 ^ 52 \<le> round_half_even (y / ulp y)" by (rule rhe_ge)
  then have "(of_int (2 ^ 52) :: rat) \<le> of_int (round_half_even (y / ulp y))"
    by (simp only: of_int_le_iff)
  then have "of_int (2 ^ 52) * ulp y \<le> nearest y"
    unfolding nearest_def using ulp_pos [of y] by (intro mult_right_mono) simp_all
  moreover have "of_int (2 ^ 52) * ulp y = 2 powi ilog2 y"
    by (simp add: u power_int_diff)
  ultimately show ?thesis by simp
qed

lemma nearest_mono:
  assumes "0 < x" "x \<le> y"
  shows "nearest x \<le> nearest y"
proof -
  let ?ex = "max (ilog2 x) (- 1022)" and ?ey = "max (ilog2 y) (- 1022)"
  have y: "0 < y" using assms by simp
  have e: "?ex \<le> ?ey" using ilog2_mono [OF assms] by simp
  show ?thesis
  proof (cases "?ex = ?ey")
    case True
    then have u: "ulp x = ulp y" by (simp add: ulp_def)
    have "x / ulp y \<le> y / ulp y" using assms(2) ulp_pos [of y] by (simp add: divide_right_mono)
    then have "round_half_even (x / ulp y) \<le> round_half_even (y / ulp y)" by (rule rhe_mono)
    then have "(of_int (round_half_even (x / ulp y)) :: rat) \<le> of_int (round_half_even (y / ulp y))"
      by (simp only: of_int_le_iff)
    then show ?thesis unfolding nearest_def u using ulp_pos [of y] by (intro mult_right_mono) simp_all
  next
    case False
    with e have lt: "?ex < ?ey" by linarith
    then have n: "- 1022 \<le> ilog2 y" and ey: "?ey = ilog2 y" by linarith+
    have le1: "?ex + 1 \<le> ilog2 y" using lt ey by linarith
    have "nearest x \<le> 2 powi (?ex + 1)" by (rule nearest_le_pow [OF assms(1)])
    also have "\<dots> \<le> 2 powi ilog2 y" by (rule power_int_increasing [OF le1]) simp
    also have "\<dots> \<le> nearest y" by (rule nearest_ge_pow [OF y n])
    finally show ?thesis .
  qed
qed

lemma nearest_idem:
  assumes "0 < x" "0 < nearest x"
  shows "nearest (nearest x) = nearest x"
proof -
  let ?e = "max (ilog2 x) (- 1022)"
  let ?m = "round_half_even (x / ulp x)"
  let ?r = "nearest x"
  let ?e2 = "max (ilog2 ?r) (- 1022)"
  have r: "?r = of_int ?m * 2 powi (?e - 52)" by (simp add: nearest_def ulp_def)
  have "\<exists>k. ?r / ulp ?r = of_int k"
  proof (cases "?e2 \<le> ?e")
    case True
    have "?r / ulp ?r = of_int ?m * (2 powi (?e - 52) / 2 powi (?e2 - 52))"
      by (simp add: r ulp_def)
    also have "2 powi (?e - 52) / 2 powi (?e2 - 52) = (2::rat) powi (?e - ?e2)"
      by (simp add: power_int_diff)
    also have "\<dots> = of_int (2 ^ nat (?e - ?e2))"
      using True by (simp add: power_int_def)
    finally have "?r / ulp ?r = of_int (?m * 2 ^ nat (?e - ?e2))" by simp
    then show ?thesis by blast
  next
    case False
    then have lt: "?e < ?e2" by linarith
    then have n: "- 1022 \<le> ilog2 ?r" and e2: "?e2 = ilog2 ?r"
      by linarith+
    have le1: "?e + 1 \<le> ilog2 ?r" using lt e2 by linarith
    have "?r \<le> 2 powi (?e + 1)" by (rule nearest_le_pow [OF assms(1)])
    also have "\<dots> \<le> 2 powi ilog2 ?r" by (rule power_int_increasing [OF le1]) simp
    finally have "?r = 2 powi ilog2 ?r" using ilog2_bounds(1) [OF assms(2)] by simp
    then have "?r / ulp ?r = 2 powi ilog2 ?r / 2 powi (ilog2 ?r - 52)"
      using n by (simp add: ulp_def max_def)
    also have "\<dots> = of_int (2 ^ 52)" by (simp add: power_int_diff)
    finally show ?thesis by blast
  qed
  then obtain k where k: "?r / ulp ?r = of_int k" by blast
  then have "?r = of_int k * ulp ?r" using ulp_pos [of ?r] by (simp add: field_simps)
  moreover have "nearest ?r = of_int k * ulp ?r"
    unfolding nearest_def [of ?r] k by (simp add: rhe_of_int)
  ultimately show ?thesis by simp
qed

lemma rd_zero: "rd 0 = Fin 0"
  by (simp add: rd_def)

lemma rd_pos:
  "0 < q \<Longrightarrow> rd q = (if 1024 \<le> ilog2 (nearest q) then PInf else Fin (nearest q))"
  by (simp add: rd_def Let_def)

lemma rd_not_NaN: "rd q \<noteq> NaN"
  by (simp add: rd_def Let_def)

lemma rd_nonneg: "0 \<le> q \<Longrightarrow> num_le (Fin 0) (rd q)"
proof (cases "q = 0")
  case True
  then show ?thesis by (simp add: rd_zero num_le_def)
next
  case False
  assume "0 \<le> q"
  with False have q: "0 < q" by simp
  then show ?thesis using nearest_nonneg [of q] by (simp add: rd_pos num_le_def not_less)
qed

lemma rd_mono_nonneg:
  assumes "0 \<le> x" "x \<le> y"
  shows "num_le (rd x) (rd y)"
proof (cases "x = 0")
  case True
  then show ?thesis using rd_nonneg [of y] assms by (simp add: rd_zero)
next
  case False
  with assms have x: "0 < x" and y: "0 < y" by simp_all
  have le: "nearest x \<le> nearest y" by (rule nearest_mono [OF x assms(2)])
  show ?thesis
  proof (cases "1024 \<le> ilog2 (nearest x)")
    case True
    then have "nearest x \<noteq> 0"
      by (auto simp: ilog2_def Let_def bitlen_def floorlog_def split: if_splits)
    then have "0 < nearest x" using nearest_nonneg [of x] x by simp
    then have "ilog2 (nearest x) \<le> ilog2 (nearest y)" using le by (rule ilog2_mono)
    then show ?thesis using True x y by (simp add: rd_pos num_le_def)
  next
    case False
    then show ?thesis using x y le by (simp add: rd_pos num_le_def not_less)
  qed
qed

lemma rd_idem_nonneg:
  assumes "0 \<le> q" "rd q = Fin r"
  shows "rd r = Fin r"
proof (cases "q = 0")
  case True
  then show ?thesis using assms by (simp add: rd_zero)
next
  case False
  with assms have q: "0 < q" by simp
  from assms(2) have r: "r = nearest q" and n: "\<not> 1024 \<le> ilog2 (nearest q)"
    by (simp_all add: rd_pos [OF q] split: if_splits)
  show ?thesis
  proof (cases "r = 0")
    case True
    then show ?thesis by (simp add: rd_zero)
  next
    case False
    then have p: "0 < nearest q" using nearest_nonneg [of q] q r by simp
    then show ?thesis using n nearest_idem [OF q p] by (simp add: r rd_pos)
  qed
qed

lemma num_le_trans: "num_le x y \<Longrightarrow> num_le y z \<Longrightarrow> num_le x z"
  by (cases x; cases y; cases z) (simp_all add: num_le_def)

lemma num_le_refl: "x \<noteq> NaN \<Longrightarrow> num_le x x"
  by (cases x) (simp_all add: num_le_def)

lemma is_double_rd: "0 \<le> q \<Longrightarrow> is_double (rd q)"
  by (cases "rd q") (auto simp: is_double_def dest: rd_idem_nonneg)

lemma fadd_nonneg:
  assumes "num_le (Fin 0) a" "num_le (Fin 0) x"
  shows "num_le (Fin 0) (fadd a x)" and "is_double (fadd a x)"
proof -
  show "num_le (Fin 0) (fadd a x)"
    using assms rd_nonneg by (cases a; cases x) (simp_all add: num_le_def not_less)
  show "is_double (fadd a x)"
    using assms is_double_rd by (cases a; cases x) (simp_all add: num_le_def not_less is_double_def)
qed

lemma fadd_increasing:
  assumes "num_le (Fin 0) a" "is_double a" "num_le (Fin 0) x"
  shows "num_le a (fadd a x)"
proof (cases a)
  case (Fin p)
  show ?thesis
  proof (cases x)
    case (Fin v)
    have p: "0 \<le> p" "0 \<le> v" using assms \<open>a = Fin p\<close> Fin by (simp_all add: num_le_def not_less)
    then have "num_le (rd p) (rd (p + v))" by (intro rd_mono_nonneg) simp_all
    moreover have "rd p = Fin p" using assms(2) \<open>a = Fin p\<close> by (simp add: is_double_def)
    ultimately show ?thesis using \<open>a = Fin p\<close> Fin by simp
  qed (use assms \<open>a = Fin p\<close> in \<open>simp_all add: num_le_def\<close>)
qed (use assms in \<open>cases x; simp_all add: num_le_def\<close>)+

lemma rd_1e21: "rd (10 ^ 21) = Fin (10 ^ 21)"
  by code_simp

lemma floor_half: "\<lfloor>(1 / 2 :: rat)\<rfloor> = 0"
  by (simp add: floor_eq_iff)

lemma toFixed_num_mono:
  assumes "num_le (Fin 0) x" "num_le x y"
  shows "num_le (toFixed_num d x) (toFixed_num d y)"
proof (cases x)
  case (Fin a)
  then have a: "0 \<le> a" using assms(1) by (simp add: num_le_def not_less)
  let ?n = "\<lambda>q::rat. of_int \<lfloor>q * 10 ^ d + 1 / 2\<rfloor> / (10 ^ d :: rat)"
  have n0: "0 \<le> ?n a" using a by simp
  have tx: "\<not> 10 ^ 21 \<le> a \<Longrightarrow> toFixed_num d x = rd (?n a)"
    using a Fin by (cases "a = 0") (simp_all add: toFixed_num_def floor_half)
  have small: "?n a \<le> 10 ^ 21" if "\<not> 10 ^ 21 \<le> a"
  proof -
    have "a * 10 ^ d + 1 / 2 \<le> of_int (10 ^ 21 * 10 ^ d) + 1 / 2"
      using that by (simp add: mult_right_mono)
    then have "\<lfloor>a * 10 ^ d + 1 / 2\<rfloor> \<le> \<lfloor>(of_int (10 ^ 21 * 10 ^ d) :: rat) + 1 / 2\<rfloor>"
      by (rule floor_mono)
    also have "\<dots> = 10 ^ 21 * 10 ^ d" by linarith
    finally have "(of_int \<lfloor>a * 10 ^ d + 1 / 2\<rfloor> :: rat) \<le> of_int (10 ^ 21 * 10 ^ d)"
      by (simp only: of_int_le_iff)
    then show ?thesis by (simp add: divide_le_eq)
  qed
  show ?thesis
  proof (cases y)
    case (Fin b)
    then have ab: "a \<le> b" using assms(2) \<open>x = Fin a\<close> by (simp add: num_le_def not_less)
    then have b: "0 \<le> b" using a by simp
    have ty: "\<not> 10 ^ 21 \<le> b \<Longrightarrow> toFixed_num d y = rd (?n b)"
      using b Fin by (cases "b = 0") (simp_all add: toFixed_num_def floor_half)
    show ?thesis
    proof (cases "10 ^ 21 \<le> b")
      case True
      show ?thesis
      proof (cases "10 ^ 21 \<le> a")
        case True
        with \<open>10 ^ 21 \<le> b\<close> a b ab show ?thesis
          using \<open>x = Fin a\<close> Fin by (simp add: toFixed_num_def num_le_def not_less)
      next
        case False
        have "num_le (rd (?n a)) (rd (10 ^ 21))"
          using n0 small [OF False] by (rule rd_mono_nonneg)
        moreover have "num_le (Fin (10 ^ 21)) (Fin b)" using True by (simp add: num_le_def not_less)
        ultimately have "num_le (rd (?n a)) (Fin b)"
          unfolding rd_1e21 by (rule num_le_trans)
        then show ?thesis using tx [OF False] True b Fin by (simp add: toFixed_num_def)
      qed
    next
      case False
      then have fa: "\<not> 10 ^ 21 \<le> a" using ab by simp
      have "\<lfloor>a * 10 ^ d + 1 / 2\<rfloor> \<le> \<lfloor>b * 10 ^ d + 1 / 2\<rfloor>"
        using ab by (intro floor_mono) (simp add: mult_right_mono)
      then have "?n a \<le> ?n b" by (simp add: divide_right_mono)
      with n0 have "num_le (rd (?n a)) (rd (?n b))" by (rule rd_mono_nonneg)
      then show ?thesis using tx [OF fa] ty [OF False] by simp
    qed
  next
    case PInf
    have "toFixed_num d x \<noteq> NaN"
      using Fin by (simp add: toFixed_num_def rd_not_NaN)
    then show ?thesis using PInf by (cases "toFixed_num d x") (simp_all add: toFixed_num_def num_le_def)
  qed (use assms Fin in \<open>simp_all add: num_le_def\<close>)
next
  case PInf
  then show ?thesis using assms by (cases y) (simp_all add: toFixed_num_def num_le_def)
qed (use assms in \<open>simp_all add: num_le_def\<close>)

subsection \<open>Rounds covered by a claim\<close>

text \<open>
  Claim C6. For every claim record, \<open>roundsCovered = max(endRound - startRound + 1, 1)\<close>, and
  it is at least 1 whatever the two rounds are, also when \<open>endRound < startRound\<close>; a claim
  with \<open>startRound = endRound = 100\<close> covers 1 round.
\<close>

theorem roundsCovered_at_least_one:
  "c_rounds (mk_claim J c) = max (cr_endRound c - cr_startRound c + 1) 1
   \<and> 1 \<le> c_rounds (mk_claim J c)
   \<and> c_rounds (mk_claim J (c\<lparr>cr_startRound := 100, cr_endRound := 100\<rparr>)) = 1"
  by (simp add: mk_claim_def Let_def)

theorem roundsCovered_at_least_one_witness:
  "c_rounds (mk_claim plain_text (raw_claim 1700000000 100 100 ''5'' ''0'')) = 1
   \<and> c_rounds (mk_claim plain_text (raw_claim 1700000000 15 11 ''5'' ''0'')) = 1
   \<and> c_rounds (mk_claim plain_text (raw_claim 1700000000 11 15 ''5'' ''0'')) = 5"
  using roundsCovered_at_least_one [of plain_text "raw_claim 1700000000 100 100 ''5'' ''0''"]
    roundsCovered_at_least_one [of plain_text "raw_claim 1700000000 15 11 ''5'' ''0''"]
    roundsCovered_at_least_one [of plain_text "raw_claim 1700000000 11 15 ''5'' ''0''"]
  by (simp add: raw_claim_def)

subsection \<open>Return on the principal\<close>

lemma mk_data_totals:
  "d_earned (mk_data J addr del earnData evtData)
   = foldl (\<lambda>s c. fadd s (Number (cr_rewardTokens c))) (Fin 0) earnData"
  "d_totalETH (mk_data J addr del earnData evtData)
   = foldl (\<lambda>s c. fadd s (Number (cr_fees c))) (Fin 0) earnData"
  "d_bondedAmount (mk_data J addr del earnData evtData) = Number (dr_bondedAmount del)"
  by (simp_all add: mk_data_def Let_def foldl_map mk_claim_def)

lemma numbers_50_80:
  "Number ''50'' = Fin 50" "Number ''80'' = Fin 80" "Number ''0'' = Fin 0"
  "rd 80 = Fin 80"
  "fsub (Fin 50) (Fin 80) = Fin (- 30)" "fsub (Fin 0) (Fin 80) = Fin (- 80)"
  "fdiv (Fin 80) (Fin 1) = Fin 80" "fmul (Fin 80) (Fin 100) = Fin 8000"
  by code_simp+

text \<open>
  Claim C1, as the code has it. The quotient \<open>earned / max(principal, 1) * 100\<close> with
  \<open>principal = bondedAmount - earned\<close> is the ROI of every dataset whose bonded amount is
  positive; the ROI of a dataset with nothing bonded is 0. With 50 bonded and 80 earned the
  principal is -30, the denominator is clamped to 1 and the ROI is 8000, with no cap.
\<close>

theorem roi_clamped_principal:
  "principal D = fsub (bondedAmount D) (earned D)
   \<and> (num_lt (Fin 0) (bondedAmount D) \<longrightarrow>
        roi D = fmul (fdiv (earned D) (fmax (principal D) (Fin 1))) (Fin 100))
   \<and> (\<not> num_lt (Fin 0) (bondedAmount D) \<longrightarrow> roi D = Fin 0)
   \<and> (num_le (bondedAmount D) (Fin 0) \<longrightarrow> roi D = Fin 0)
   \<and> (bondedAmount D = Fin 50 \<and> earned D = Fin 80 \<longrightarrow>
        principal D = Fin (- 30) \<and> roi D = Fin 8000)"
  by (auto simp: roi_def principal_def numbers_50_80 fmax_def num_le_def)

theorem roi_clamped_principal_witness:
  "num_lt (Fin 0) (bondedAmount (Some data_50_80)) \<and> bondedAmount (Some data_50_80) = Fin 50
   \<and> earned (Some data_50_80) = Fin 80 \<and> principal (Some data_50_80) = Fin (- 30)
   \<and> roi (Some data_50_80) = Fin 8000
   \<and> num_le (bondedAmount (Some data_unbonded)) (Fin 0) \<and> roi (Some data_unbonded) = Fin 0"
proof -
  have b: "bondedAmount (Some data_50_80) = Fin 50" and e: "earned (Some data_50_80) = Fin 80"
    by (simp_all add: bondedAmount_def earned_def data_50_80_def mk_data_totals
        profile_def raw_claim_def numbers_50_80 or_zero_def)
  have u: "bondedAmount (Some data_unbonded) = Fin 0"
    by (simp add: bondedAmount_def data_unbonded_def mk_data_totals profile_def numbers_50_80
        or_zero_def)
  show ?thesis
    using roi_clamped_principal [of "Some data_50_80"]
      roi_clamped_principal [of "Some data_unbonded"] b e u
    by (simp add: num_le_def numbers_50_80 fmax_def)
qed

text \<open>
  Claim C1 as stated fails for a delegator who has unbonded everything: with 0 bonded and
  80 earned the quotient is \<open>80 / max(-80, 1) * 100 = 8000\<close>, and the ROI is 0.
\<close>

theorem roi_unbonded_counterexample:
  "roi (Some data_unbonded)
   \<noteq> fmul (fdiv (earned (Some data_unbonded))
                 (fmax (fsub (bondedAmount (Some data_unbonded)) (earned (Some data_unbonded)))
                       (Fin 1)))
           (Fin 100)"
  by (simp add: roi_def principal_def bondedAmount_def earned_def data_unbonded_def
      mk_data_totals profile_def raw_claim_def numbers_50_80 or_zero_def fmax_def)

subsection \<open>The cumulative series\<close>

lemma cum_from_length: "length (cum_from J cl ce cs) = length cs"
  by (induction cs arbitrary: cl ce) (simp_all add: Let_def)

lemma cum_from_nth:
  "i < length cs \<Longrightarrow>
     p_lpt (cum_from J cl ce cs ! i)
       = toFixed_num 2 (foldl (\<lambda>s c. fadd s (c_lpt c)) cl (take (Suc i) cs))
   \<and> p_eth (cum_from J cl ce cs ! i)
       = toFixed_num 5 (foldl (\<lambda>s c. fadd s (c_eth c)) ce (take (Suc i) cs))
   \<and> p_claimLPT (cum_from J cl ce cs ! i) = c_lpt (cs ! i)
   \<and> p_claimETH (cum_from J cl ce cs ! i) = c_eth (cs ! i)"
proof (induction cs arbitrary: cl ce i)
  case Nil
  then show ?case by simp
next
  case (Cons c cs)
  show ?case
  proof (cases i)
    case 0
    then show ?thesis by (simp add: Let_def)
  next
    case (Suc k)
    with Cons.prems have "k < length cs" by simp
    from Cons.IH [OF this, of "fadd cl (c_lpt c)" "fadd ce (c_eth c)"] Suc
    show ?thesis by (simp add: Let_def)
  qed
qed

lemma running_total_nonneg:
  assumes "\<forall>c\<in>set xs. num_le (Fin 0) (f c)" "num_le (Fin 0) a" "is_double a"
  shows "num_le (Fin 0) (foldl (\<lambda>s c. fadd s (f c)) a xs)
       \<and> is_double (foldl (\<lambda>s c. fadd s (f c)) a xs)"
  using assms
proof (induction xs arbitrary: a)
  case Nil
  then show ?case by simp
next
  case (Cons x xs)
  have "num_le (Fin 0) (fadd a (f x))" "is_double (fadd a (f x))"
    using fadd_nonneg [of a "f x"] Cons.prems by simp_all
  with Cons.IH [of "fadd a (f x)"] Cons.prems show ?case by simp
qed

lemma running_total_mono:
  assumes "\<forall>c\<in>set cs. num_le (Fin 0) (f c)" "Suc i < length cs"
  shows "num_le (Fin 0) (foldl (\<lambda>s c. fadd s (f c)) (Fin 0) (take (Suc i) cs))"
    and "num_le (foldl (\<lambda>s c. fadd s (f c)) (Fin 0) (take (Suc i) cs))
                (foldl (\<lambda>s c. fadd s (f c)) (Fin 0) (take (Suc (Suc i)) cs))"
proof -
  let ?run = "\<lambda>n. foldl (\<lambda>s c. fadd s (f c)) (Fin 0) (take n cs)"
  have z: "num_le (Fin 0) (Fin 0)" "is_double (Fin 0)"
    by (simp_all add: num_le_def is_double_def rd_zero)
  have "\<forall>c\<in>set (take (Suc i) cs). num_le (Fin 0) (f c)"
    using assms(1) by (meson in_set_takeD)
  from running_total_nonneg [OF this z]
  have r: "num_le (Fin 0) (?run (Suc i))" "is_double (?run (Suc i))" by simp_all
  show "num_le (Fin 0) (?run (Suc i))" by (rule r(1))
  have "take (Suc (Suc i)) cs = take (Suc i) cs @ [cs ! Suc i]"
    using assms(2) by (simp add: take_Suc_conv_app_nth)
  then have "?run (Suc (Suc i)) = fadd (?run (Suc i)) (f (cs ! Suc i))" by simp
  moreover have "num_le (Fin 0) (f (cs ! Suc i))" using assms by simp
  ultimately show "num_le (?run (Suc i)) (?run (Suc (Suc i)))"
    using fadd_increasing [OF r] by simp
qed

text \<open>
  Claim C5, as the code has it. Take a non-empty claims list with non-negative reward and
  fee amounts, in ascending timestamp order as the earnings query returns it. The
  cumulative series has one point per claim, in timestamp order. Point \<open>i\<close> holds the
  running sum of the rewards of the claims up to \<open>i\<close>, added one after the other as
  numbers, rounded to 2 decimals, and the running sum of their fees rounded to 5 decimals,
  next to the amounts of claim \<open>i\<close> itself. The series is non-decreasing in both dimensions.
\<close>

theorem cumData_rounded_running_sums:
  assumes "claims D \<noteq> []"
    and "sorted (map c_ts (claims D))"
    and "\<forall>c\<in>set (claims D). num_le (Fin 0) (c_lpt c) \<and> num_le (Fin 0) (c_eth c)"
  shows "length (cumData J D) = length (claims D)
     \<and> sort_key c_ts (claims D) = claims D
     \<and> (\<forall>i<length (claims D).
           p_lpt (cumData J D ! i)
             = toFixed_num 2 (foldl (\<lambda>s c. fadd s (c_lpt c)) (Fin 0)
                                (take (Suc i) (sort_key c_ts (claims D))))
         \<and> p_eth (cumData J D ! i)
             = toFixed_num 5 (foldl (\<lambda>s c. fadd s (c_eth c)) (Fin 0)
                                (take (Suc i) (sort_key c_ts (claims D))))
         \<and> p_claimLPT (cumData J D ! i) = c_lpt (sort_key c_ts (claims D) ! i)
         \<and> p_claimETH (cumData J D ! i) = c_eth (sort_key c_ts (claims D) ! i))
     \<and> (\<forall>i. Suc i < length (claims D) \<longrightarrow>
           num_le (p_lpt (cumData J D ! i)) (p_lpt (cumData J D ! Suc i))
         \<and> num_le (p_eth (cumData J D ! i)) (p_eth (cumData J D ! Suc i)))"
proof -
  let ?cs = "claims D"
  have srt: "sort_key c_ts ?cs = ?cs"
    using assms(2) by (rule sort_key_id_if_sorted)
  have cum: "cumData J D = cum_from J (Fin 0) (Fin 0) ?cs"
    using assms(1) by (simp add: cumData_def)
  have len: "length (cumData J D) = length ?cs"
    by (simp add: cum cum_from_length)
  have pt: "\<forall>i<length ?cs.
           p_lpt (cumData J D ! i)
             = toFixed_num 2 (foldl (\<lambda>s c. fadd s (c_lpt c)) (Fin 0) (take (Suc i) ?cs))
         \<and> p_eth (cumData J D ! i)
             = toFixed_num 5 (foldl (\<lambda>s c. fadd s (c_eth c)) (Fin 0) (take (Suc i) ?cs))
         \<and> p_claimLPT (cumData J D ! i) = c_lpt (?cs ! i)
         \<and> p_claimETH (cumData J D ! i) = c_eth (?cs ! i)"
    using cum_from_nth [of _ ?cs J "Fin 0" "Fin 0"] by (simp add: cum)
  have lpt: "\<forall>c\<in>set ?cs. num_le (Fin 0) (c_lpt c)" and eth: "\<forall>c\<in>set ?cs. num_le (Fin 0) (c_eth c)"
    using assms(3) by simp_all
  have mono: "num_le (p_lpt (cumData J D ! i)) (p_lpt (cumData J D ! Suc i))
         \<and> num_le (p_eth (cumData J D ! i)) (p_eth (cumData J D ! Suc i))"
    if i: "Suc i < length ?cs" for i
  proof -
    from i have i': "i < length ?cs" by simp
    have "num_le (toFixed_num 2 (foldl (\<lambda>s c. fadd s (c_lpt c)) (Fin 0) (take (Suc i) ?cs)))
            (toFixed_num 2 (foldl (\<lambda>s c. fadd s (c_lpt c)) (Fin 0) (take (Suc (Suc i)) ?cs)))"
      by (rule toFixed_num_mono [OF running_total_mono [OF lpt i]])
    moreover
    have "num_le (toFixed_num 5 (foldl (\<lambda>s c. fadd s (c_eth c)) (Fin 0) (take (Suc i) ?cs)))
            (toFixed_num 5 (foldl (\<lambda>s c. fadd s (c_eth c)) (Fin 0) (take (Suc (Suc i)) ?cs)))"
      by (rule toFixed_num_mono [OF running_total_mono [OF eth i]])
    ultimately show ?thesis using pt i i' by simp
  qed
  show ?thesis using len pt mono by (simp add: srt)
qed

lemma claims_two: "claims (Some data_two_claims) =
   [mk_claim plain_text (raw_claim 1700000000 10 10 ''5'' ''0.001''),
    mk_claim plain_text (raw_claim 1700086400 11 15 ''20'' ''0.004'')]"
  by (simp add: claims_def data_two_claims_def mk_data_def Let_def)

lemma numbers_two_claims:
  "Number ''5'' = Fin 5" "Number ''20'' = Fin 20"
  "num_le (Fin 0) (Number ''0.001'')" "num_le (Fin 0) (Number ''0.004'')"
  "toFixed_num 2 (fadd (Fin 0) (Fin 5)) = Fin 5"
  "toFixed_num 2 (fadd (fadd (Fin 0) (Fin 5)) (Fin 20)) = Fin 25"
  "toFixed_num 5 (fadd (Fin 0) (Number ''0.001'')) = Number ''0.001''"
  "toFixed_num 5 (fadd (fadd (Fin 0) (Number ''0.001'')) (Number ''0.004'')) = Number ''0.005''"
  by code_simp+

theorem cumData_rounded_running_sums_witness:
  "claims (Some data_two_claims) \<noteq> []
   \<and> map c_ts (claims (Some data_two_claims)) = [1700000000, 1700086400]
   \<and> map c_lpt (claims (Some data_two_claims)) = [Fin 5, Fin 20]
   \<and> map c_eth (claims (Some data_two_claims)) = [Number ''0.001'', Number ''0.004'']
   \<and> length (cumData plain_text (Some data_two_claims)) = 2
   \<and> p_lpt (cumData plain_text (Some data_two_claims) ! 0) = Fin 5
   \<and> p_eth (cumData plain_text (Some data_two_claims) ! 0) = Number ''0.001''
   \<and> p_lpt (cumData plain_text (Some data_two_claims) ! 1) = Fin 25
   \<and> p_eth (cumData plain_text (Some data_two_claims) ! 1) = Number ''0.005''
   \<and> num_le (p_lpt (cumData plain_text (Some data_two_claims) ! 0))
             (p_lpt (cumData plain_text (Some data_two_claims) ! 1))"
proof -
  let ?D = "Some data_two_claims"
  have ne: "claims ?D \<noteq> []"
    by (simp add: claims_two)
  have cs: "map c_ts (claims ?D) = [1700000000, 1700086400]"
    "map c_lpt (claims ?D) = [Fin 5, Fin 20]"
    "map c_eth (claims ?D) = [Number ''0.001'', Number ''0.004'']"
    by (simp_all add: claims_two mk_claim_def raw_claim_def numbers_two_claims)
  have srt: "sorted (map c_ts (claims ?D))" by (simp add: cs)
  have nn: "num_le (Fin 0) (Fin 5)" "num_le (Fin 0) (Fin 20)"
    by (simp_all add: num_le_def)
  have pos: "\<forall>c\<in>set (claims ?D). num_le (Fin 0) (c_lpt c) \<and> num_le (Fin 0) (c_eth c)"
    by (simp add: claims_two mk_claim_def raw_claim_def numbers_two_claims nn)
  note T = cumData_rounded_running_sums [OF ne srt pos, of plain_text]
  have s: "sort_key c_ts (claims ?D) = claims ?D" using T by simp
  have len: "length (cumData plain_text ?D) = 2"
    using T by (simp add: claims_two)
  have p0: "p_lpt (cumData plain_text ?D ! 0) = Fin 5
      \<and> p_eth (cumData plain_text ?D ! 0) = Number ''0.001''"
    using T [THEN conjunct2, THEN conjunct2, THEN conjunct1, rule_format, of 0]
      numbers_two_claims(1,2,5-8)
    by (simp add: s) (simp add: claims_two mk_claim_def raw_claim_def)
  have p1: "p_lpt (cumData plain_text ?D ! 1) = Fin 25
      \<and> p_eth (cumData plain_text ?D ! 1) = Number ''0.005''"
    using T [THEN conjunct2, THEN conjunct2, THEN conjunct1, rule_format, of 1]
      numbers_two_claims(1,2,5-8)
    by (simp add: s) (simp add: claims_two mk_claim_def raw_claim_def)
  have m: "num_le (p_lpt (cumData plain_text ?D ! 0)) (p_lpt (cumData plain_text ?D ! 1))"
    using T [THEN conjunct2, THEN conjunct2, THEN conjunct2, rule_format, of 0]
    by (simp add: claims_two)
  show ?thesis using ne cs len p0 p1 m by simp
qed

text \<open>
  Claim C5 as stated fails on the running sum itself: the point of a single claim of
  1.234567 LPT holds 1.23.
\<close>

lemma numbers_fraction:
  "toFixed_num 2 (fadd (Fin 0) (Number ''1.234567'')) = Number ''1.23''"
  "fadd (Fin 0) (Number ''1.234567'') = Number ''1.234567''"
  "Number ''1.23'' \<noteq> Number ''1.234567''"
  by code_simp+

theorem cumData_fraction_counterexample:
  "claims (Some data_fraction) \<noteq> []
   \<and> p_lpt (cumData plain_text (Some data_fraction) ! 0) = Number ''1.23''
   \<and> foldl (\<lambda>s c. fadd s (c_lpt c)) (Fin 0) (take 1 (claims (Some data_fraction)))
       = Number ''1.234567''
   \<and> p_lpt (cumData plain_text (Some data_fraction) ! 0)
       \<noteq> foldl (\<lambda>s c. fadd s (c_lpt c)) (Fin 0) (take 1 (claims (Some data_fraction)))"
  using numbers_fraction
  by (simp add: cumData_def claims_def data_fraction_def mk_data_def Let_def mk_claim_def
      raw_claim_def)

subsection \<open>The merged timeline\<close>

lemma stake_entries_not_claim: "e \<in> set (stake_entries J evtData) \<Longrightarrow> e_t e \<noteq> ''claim''"
  by (auto simp: stake_entries_def bond_entry_def unbond_entry_def rebond_entry_def
      withdraw_entry_def withdrawFees_entry_def Let_def split: if_splits)

lemma claim_entries_claim: "e \<in> set (map (claim_entry J) cs) \<Longrightarrow> e_t e = ''claim''"
  by (auto simp: claim_entry_def)

lemma filter_keeps_order:
  assumes "i < j" "j < length xs" "P (xs ! i)" "P (xs ! j)"
  shows "\<exists>i' j'. i' < j' \<and> j' < length (filter P xs)
           \<and> filter P xs ! i' = xs ! i \<and> filter P xs ! j' = xs ! j"
proof -
  let ?a = "take i xs" and ?b = "take (j - Suc i) (drop (Suc i) xs)" and ?c = "drop (Suc j) xs"
  have i: "i < length xs" using assms by simp
  have "drop (Suc i) xs = ?b @ drop (j - Suc i) (drop (Suc i) xs)"
    by (simp only: append_take_drop_id)
  also have "drop (j - Suc i) (drop (Suc i) xs) = drop j xs" using assms by simp
  also have "drop j xs = xs ! j # ?c" using assms by (simp add: Cons_nth_drop_Suc)
  finally have d: "drop (Suc i) xs = ?b @ xs ! j # ?c" .
  have "xs = ?a @ xs ! i # drop (Suc i) xs" using i by (simp add: id_take_nth_drop [symmetric])
  then have xs: "xs = ?a @ xs ! i # ?b @ xs ! j # ?c" using d by simp
  have f: "filter P xs = filter P ?a @ xs ! i # filter P ?b @ xs ! j # filter P ?c"
    by (subst xs) (simp add: assms)
  let ?i' = "length (filter P ?a)" and ?j' = "length (filter P ?a) + Suc (length (filter P ?b))"
  have "filter P xs ! ?i' = xs ! i" by (simp add: f)
  moreover have "filter P xs ! ?j' = xs ! j"
    by (simp add: f nth_append)
  moreover have "?j' < length (filter P xs)" by (simp add: f)
  moreover have "?i' < ?j'" by simp
  ultimately show ?thesis by blast
qed

lemma append_split_order:
  assumes "\<forall>x\<in>set as. \<not> Q x" "\<forall>x\<in>set bs. Q x" "i < j" "j < length (as @ bs)" "Q ((as @ bs) ! i)"
  shows "Q ((as @ bs) ! j)"
proof -
  have "\<not> i < length as"
  proof
    assume "i < length as"
    then have "(as @ bs) ! i \<in> set as" by (simp add: nth_append)
    with assms show False by blast
  qed
  then have "\<not> j < length as" using assms by simp
  then have "(as @ bs) ! j \<in> set bs" using assms by (simp add: nth_append)
  with assms show ?thesis by blast
qed

text \<open>
  Claim C4. For all event collections and all claims, the merged timeline is sorted
  ascending by timestamp. It holds exactly the entries pushed, each as an entry of its own.
  The entries of one timestamp stand in the order in which they were pushed: the stake
  events in the order of their collections, then the claims; so no stake event follows a
  claim of the same timestamp. The timeline of a dataset is built this way from its claims.
\<close>

theorem timeline_sorted_stable:
  "sorted (map e_ts (build_events J evtData cs))
   \<and> mset (build_events J evtData cs) = mset (stake_entries J evtData) + mset (map (claim_entry J) cs)
   \<and> (\<forall>t. filter (\<lambda>e. e_ts e = t) (build_events J evtData cs)
           = filter (\<lambda>e. e_ts e = t) (stake_entries J evtData)
             @ filter (\<lambda>e. e_ts e = t) (map (claim_entry J) cs))
   \<and> (\<forall>i j. i < j \<and> j < length (build_events J evtData cs)
           \<and> e_ts (build_events J evtData cs ! i) = e_ts (build_events J evtData cs ! j)
           \<and> e_t (build_events J evtData cs ! i) = ''claim''
         \<longrightarrow> e_t (build_events J evtData cs ! j) = ''claim'')
   \<and> d_events (mk_data J addr del earnData evtData)
       = build_events J evtData (map (mk_claim J) earnData)"
proof -
  let ?tl = "build_events J evtData cs"
  let ?st = "stake_entries J evtData" and ?cl = "map (claim_entry J) cs"
  have s: "sorted (map e_ts ?tl)"
    by (simp add: build_events_def)
  have m: "mset ?tl = mset ?st + mset ?cl"
    by (simp add: build_events_def pushed_entries_def)
  have f: "filter (\<lambda>e. e_ts e = t) ?tl = filter (\<lambda>e. e_ts e = t) ?st @ filter (\<lambda>e. e_ts e = t) ?cl" for t
    by (simp add: build_events_def pushed_entries_def sort_key_stable)
  have o: "e_t (?tl ! j) = ''claim''"
    if ij: "i < j" "j < length ?tl" and ts: "e_ts (?tl ! i) = e_ts (?tl ! j)"
      and c: "e_t (?tl ! i) = ''claim''" for i j
  proof -
    let ?P = "\<lambda>e. e_ts e = e_ts (?tl ! j)"
    from filter_keeps_order [of i j ?tl ?P] ij ts
    obtain i' j' where k: "i' < j'" "j' < length (filter ?P ?tl)"
      "filter ?P ?tl ! i' = ?tl ! i" "filter ?P ?tl ! j' = ?tl ! j" by auto
    have a: "\<forall>x\<in>set (filter ?P ?st). \<not> e_t x = ''claim''"
      using stake_entries_not_claim by auto
    have b: "\<forall>x\<in>set (filter ?P ?cl). e_t x = ''claim''"
      using claim_entries_claim by (metis filter_is_subset subsetD)
    have "e_t ((filter ?P ?st @ filter ?P ?cl) ! j') = ''claim''"
      using append_split_order [where Q = "\<lambda>e. e_t e = ''claim''", OF a b k(1)] k c
      by (simp add: f)
    then show ?thesis using k by (simp add: f)
  qed
  have d: "d_events (mk_data J addr del earnData evtData)
       = build_events J evtData (map (mk_claim J) earnData)"
    by (simp add: mk_data_def Let_def)
  show ?thesis using s m f o d by blast
qed

lemma mixed_timeline:
  "map (\<lambda>e. (e_t e, e_ts e)) (build_events plain_text mixed_events mixed_claims)
   = [(''unbond'', 50), (''bond'', 100), (''withdrawFees'', 100), (''claim'', 100), (''claim'', 100)]"
  by (simp add: build_events_def pushed_entries_def stake_entries_def bond_entry_def
      unbond_entry_def withdrawFees_entry_def claim_entry_def mk_claim_def raw_claim_def
      mixed_events_def mixed_claims_def Let_def)

theorem timeline_sorted_stable_witness:
  "(3::nat) < 4 \<and> 4 < length (build_events plain_text mixed_events mixed_claims)
   \<and> e_ts (build_events plain_text mixed_events mixed_claims ! 3)
      = e_ts (build_events plain_text mixed_events mixed_claims ! 4)
   \<and> e_t (build_events plain_text mixed_events mixed_claims ! 3) = ''claim''
   \<and> e_t (build_events plain_text mixed_events mixed_claims ! 4) = ''claim''
   \<and> sorted (map e_ts (build_events plain_text mixed_events mixed_claims))"
proof -
  let ?tl = "build_events plain_text mixed_events mixed_claims"
  have len: "length ?tl = 5"
    using arg_cong [OF mixed_timeline, of length] by simp
  have nth: "(e_t (?tl ! 3), e_ts (?tl ! 3)) = (''claim'', 100)"
    "(e_t (?tl ! 4), e_ts (?tl ! 4)) = (''claim'', 100)"
    using arg_cong [OF mixed_timeline, of "\<lambda>xs. xs ! 3"]
      arg_cong [OF mixed_timeline, of "\<lambda>xs. xs ! 4"] len
    by simp_all
  note T = timeline_sorted_stable [of plain_text mixed_events mixed_claims]
  have c: "e_t (?tl ! 4) = ''claim''"
    using T [THEN conjunct2, THEN conjunct2, THEN conjunct2, THEN conjunct1, rule_format, of 3 4]
      len nth by simp
  show ?thesis using T c len nth by simp
qed

subsection \<open>Yield projections of an orchestrator\<close>

lemma numbers_yield:
  "Number ''1000'' = Fin 1000" "Number ''100000'' = Fin 100000"
  "fdiv (Fin 1000) (Fin 100000) = Number ''0.01''"
  "fmul (Number ''0.01'') (fsub (Fin 1) (fdiv (Fin 100000) (Fin 1000000)))
   = Number ''0.009000000000000001''"
  "fmul (fmul (Number ''0.009000000000000001'') (Fin 365)) (Fin 100)
   = Number ''328.50000000000006''"
  "Number ''328.50000000000006'' \<noteq> Number ''328.5''"
  "Number ''0.009000000000000001'' \<noteq> Number ''0.009''"
  by code_simp+

lemma numbers_fee_yield:
  "Number ''20000'' = Fin 20000" "Number ''4'' = Fin 4" "Number ''500000'' = Fin 500000"
  "fmul (fdiv (fmul (Fin 4) (fdiv (Fin 500000) (Fin 1000000))) (Fin 20000)) (Fin 12)
   = Number ''0.0012000000000000001''"
  by code_simp+

text \<open>
  Claim C7, as the code has it. For every orchestrator and protocol snapshot, with every
  operation the one on numbers: the base yield per round is
  \<open>mintable / totalActiveStake\<close> when the total active stake is positive and 0 otherwise;
  the delegator yield per round is the base yield times \<open>1 - rewardCut / 1000000\<close>; the
  annualized reward APY is the delegator yield times 365 times 100; the ETH yield per
  staked unit and year is \<open>(thirtyDayVolumeETH * (feeShare / 1000000) / totalStake) * 12\<close>
  when the orchestrator's stake is positive and 0 otherwise. With 1000 mintable,
  100000 active stake and a reward cut stored as 100000 the three values are 0.01,
  0.009000000000000001 and 328.50000000000006. These are the rows that a first load of
  the comparison stores.
\<close>

theorem orchestrator_yield_projection:
  "(let baseYield = (if num_lt (Fin 0) totalActive then fdiv mintable totalActive else Fin 0);
        delegatorYield =
          fmul baseYield (fsub (Fin 1) (fdiv (Number (tr_rewardCut t)) (Fin 1000000)));
        orc = mk_orch mintable totalActive cur t
    in o_rewardAPY orc = fmul (fmul delegatorYield (Fin 365)) (Fin 100)
     \<and> o_ethYieldPerLPT orc
         = (if num_lt (Fin 0) (Number (tr_totalStake t))
            then fmul (fdiv (fmul (Number (tr_thirtyDayVolumeETH t))
                                  (fdiv (Number (tr_feeShare t)) (Fin 1000000)))
                            (Number (tr_totalStake t)))
                      (Fin 12)
            else Fin 0)
     \<and> (mintable = Fin 1000 \<and> totalActive = Fin 100000 \<and> Number (tr_rewardCut t) = Fin 100000
          \<longrightarrow> baseYield = Number ''0.01''
            \<and> delegatorYield = Number ''0.009000000000000001''
            \<and> o_rewardAPY orc = Number ''328.50000000000006''))
   \<and> (orchData s = None \<and> transcoders_answer N = Inr tData \<and> protocol_answer N = Inr protocol
        \<longrightarrow> orchData (loadOrchestrators N s)
             = Some (map (mk_orch (Number (pr_currentRound_mintableTokens protocol))
                            (Number (pr_totalActiveStake protocol))
                            (pr_currentRound_id protocol)) tData))"
  by (simp add: mk_orch_def Let_def loadOrchestrators_def promise_all_def numbers_yield)

theorem orchestrator_yield_projection_witness:
  "orchData app_init = None
   \<and> transcoders_answer net_ok = Inr [transcoder_1, transcoder_2]
   \<and> protocol_answer net_ok = Inr protocol_1
   \<and> Number (pr_currentRound_mintableTokens protocol_1) = Fin 1000
   \<and> Number (pr_totalActiveStake protocol_1) = Fin 100000
   \<and> Number (tr_rewardCut transcoder_1) = Fin 100000
   \<and> num_lt (Fin 0) (Number (tr_totalStake transcoder_1))
   \<and> map o_id (the (orchData (loadOrchestrators net_ok app_init))) = [orch_1, orch_2]
   \<and> o_rewardAPY (hd (the (orchData (loadOrchestrators net_ok app_init))))
       = Number ''328.50000000000006''
   \<and> o_ethYieldPerLPT (hd (the (orchData (loadOrchestrators net_ok app_init))))
       = Number ''0.0012000000000000001''"
proof -
  have h: "orchData app_init = None" "transcoders_answer net_ok = Inr [transcoder_1, transcoder_2]"
    "protocol_answer net_ok = Inr protocol_1"
    by (simp_all add: app_init_def net_ok_def)
  have v: "Number (pr_currentRound_mintableTokens protocol_1) = Fin 1000"
    "Number (pr_totalActiveStake protocol_1) = Fin 100000"
    "Number (tr_rewardCut transcoder_1) = Fin 100000"
    "Number (tr_totalStake transcoder_1) = Fin 20000"
    "Number (tr_thirtyDayVolumeETH transcoder_1) = Fin 4"
    "Number (tr_feeShare transcoder_1) = Fin 500000"
    "pr_currentRound_id protocol_1 = ''3000''"
    by (simp_all add: protocol_1_def transcoder_1_def numbers_yield numbers_fee_yield)
  have i: "o_id (mk_orch m a r transcoder_1) = orch_1" "o_id (mk_orch m a r transcoder_2) = orch_2"
    for m a r
    by (simp_all add: mk_orch_def Let_def transcoder_1_def transcoder_2_def)
  note T = orchestrator_yield_projection
    [of "Fin 100000" "Fin 1000" transcoder_1 "''3000''" app_init net_ok
        "[transcoder_1, transcoder_2]" protocol_1]
  show ?thesis using T h v i by (simp add: Let_def numbers_yield numbers_fee_yield)
qed

text \<open>
  Claim C7 as stated fails on the values of its scenario: the reward APY that the code
  computes from 1000 mintable, 100000 active stake and the reward cut 100000 is
  328.50000000000006 and not 328.5, because the delegator yield is 0.009000000000000001
  and not 0.009.
\<close>

theorem orchestrator_yield_counterexample:
  "o_rewardAPY (mk_orch (Number ''1000'') (Number ''100000'') ''3000'' transcoder_1)
     = Number ''328.50000000000006''
   \<and> o_rewardAPY (mk_orch (Number ''1000'') (Number ''100000'') ''3000'' transcoder_1)
     \<noteq> Number ''328.5''
   \<and> fmul (fdiv (Number ''1000'') (Number ''100000''))
          (fsub (Fin 1) (fdiv (Number (tr_rewardCut transcoder_1)) (Fin 1000000)))
     \<noteq> Number ''0.009''"
  by (simp add: mk_orch_def Let_def transcoder_1_def numbers_yield)

subsection \<open>Numeric fields are read as binary64 numbers\<close>

lemma digit_of_sign: "digit_of (CHR ''+'') = None" "digit_of (CHR ''-'') = None"
  by (simp_all add: digit_of_def)

lemma mantissa_sign:
  assumes "c = CHR ''+'' \<or> c = CHR ''-''"
  shows "mantissa (c # m) = None"
proof -
  have "before (\<lambda>x. x = CHR ''.'') (c # m) = c # before (\<lambda>x. x = CHR ''.'') m"
    using assms by (auto simp: before_def)
  moreover have "\<not> digits_in 10 (c # xs)" for xs
    using assms digit_of_sign by (auto simp: digits_in_def)
  ultimately show ?thesis
    by (simp add: mantissa_def Let_def split: option.splits)
qed

lemma unsigned_decimal_no_sign:
  assumes "unsigned_decimal (c # r) = Some v"
  shows "c \<noteq> CHR ''+'' \<and> c \<noteq> CHR ''-''"
proof (rule ccontr)
  assume "\<not> (c \<noteq> CHR ''+'' \<and> c \<noteq> CHR ''-'')"
  then have c: "c = CHR ''+'' \<or> c = CHR ''-''" by blast
  then have "before (\<lambda>x. x = CHR ''e'' \<or> x = CHR ''E'') (c # r)
      = c # before (\<lambda>x. x = CHR ''e'' \<or> x = CHR ''E'') r"
    by (auto simp: before_def)
  then have "unsigned_decimal (c # r) = None"
    using mantissa_sign [OF c] by (simp add: unsigned_decimal_def Let_def split: option.splits)
  with assms show False by simp
qed

lemma unsigned_decimal_not_Infinity: "unsigned_decimal ''Infinity'' = None"
  by code_simp

lemma Number_decimal:
  assumes "trim s \<noteq> []" "non_decimal (trim s) = None" "unsigned_decimal (trim s) = Some v"
  shows "Number s = rd v"
proof -
  obtain c r where t: "trim s = c # r" using assms(1) by (cases "trim s") auto
  from unsigned_decimal_no_sign [of c r v] assms(3) t
  have c: "c \<noteq> CHR ''+''" "c \<noteq> CHR ''-''" by simp_all
  have i: "trim s \<noteq> ''Infinity''"
    using assms(3) unsigned_decimal_not_Infinity by auto
  have h: "hd (trim s) \<noteq> CHR ''+''" "hd (trim s) \<noteq> CHR ''-''" using t c by simp_all
  show ?thesis
    unfolding Number_def Let_def using assms i h by (simp only: if_False option.case) simp
qed

lemma numbers_tenths:
  "trim ''0.1'' \<noteq> []" "non_decimal (trim ''0.1'') = None"
  "unsigned_decimal (trim ''0.1'') = Some (1 / 10)"
  "unsigned_decimal ''0.1'' = Some (1 / 10)"
  "rd (1 / 10) = Fin (3602879701896397 / 36028797018963968)"
  "Number ''0.1'' \<noteq> Fin (1 / 10)"
  "fadd (fadd (Fin 0) (Number ''0.1'')) (Number ''0.2'') = Number ''0.30000000000000004''"
  "Number ''0.30000000000000004'' \<noteq> Fin (3 / 10)"
  by code_simp+

text \<open>
  Claim C8, as the code has it. A numeric field that arrives as a decimal string is read
  with \<^verbatim>\<open>Number\<close>: the value of a decimal literal is rounded to the nearest binary64
  number, and no arbitrary-precision decimal is kept. This holds for the reward and fee
  amounts of a claim and for the bonded stake. The aggregates are sums, in the arithmetic
  of numbers, of the values so read, with no rounding for display on the way: the lifetime
  totals fold the claims from 0, and a point of the cumulative series rounds the running
  total only when it is stored into the point, while the running total itself is carried
  on unrounded.
\<close>

theorem numeric_fields_are_binary64:
  "(trim s \<noteq> [] \<and> non_decimal (trim s) = None \<and> unsigned_decimal (trim s) = Some v
      \<longrightarrow> Number s = rd v)
   \<and> c_lpt (mk_claim J c) = Number (cr_rewardTokens c)
   \<and> c_eth (mk_claim J c) = Number (cr_fees c)
   \<and> d_bondedAmount (mk_data J addr del earnData evtData) = Number (dr_bondedAmount del)
   \<and> d_earned (mk_data J addr del earnData evtData)
       = foldl (\<lambda>a c. fadd a (Number (cr_rewardTokens c))) (Fin 0) earnData
   \<and> d_totalETH (mk_data J addr del earnData evtData)
       = foldl (\<lambda>a c. fadd a (Number (cr_fees c))) (Fin 0) earnData
   \<and> (i < length cs \<longrightarrow>
        p_lpt (cum_from J (Fin 0) (Fin 0) cs ! i)
          = toFixed_num 2 (foldl (\<lambda>a c. fadd a (c_lpt c)) (Fin 0) (take (Suc i) cs))
      \<and> p_eth (cum_from J (Fin 0) (Fin 0) cs ! i)
          = toFixed_num 5 (foldl (\<lambda>a c. fadd a (c_eth c)) (Fin 0) (take (Suc i) cs)))"
  using Number_decimal [of s v] cum_from_nth [of i cs J "Fin 0" "Fin 0"]
  by (simp add: mk_data_totals) (simp add: mk_claim_def Let_def)

theorem numeric_fields_are_binary64_witness:
  "trim ''0.1'' \<noteq> [] \<and> non_decimal (trim ''0.1'') = None
   \<and> unsigned_decimal (trim ''0.1'') = Some (1 / 10)
   \<and> Number ''0.1'' = Fin (3602879701896397 / 36028797018963968)
   \<and> d_earned data_tenths = Number ''0.30000000000000004''
   \<and> (0::nat) < length (claims (Some data_tenths))
   \<and> p_lpt (cum_from plain_text (Fin 0) (Fin 0) (claims (Some data_tenths)) ! 0)
       = toFixed_num 2 (fadd (Fin 0) (Number ''0.1''))"
proof -
  have cs: "claims (Some data_tenths)
      = [mk_claim plain_text (raw_claim 1700000000 10 10 ''0.1'' ''0''),
         mk_claim plain_text (raw_claim 1700086400 11 11 ''0.2'' ''0'')]"
    by (simp add: claims_def data_tenths_def mk_data_def Let_def)
  note T = numeric_fields_are_binary64
    [of "''0.1''" "1 / 10" plain_text _ addr_a "profile addr_a ''1000''"
        "[raw_claim 1700000000 10 10 ''0.1'' ''0'', raw_claim 1700086400 11 11 ''0.2'' ''0'']"
        no_events 0 "claims (Some data_tenths)"]
  have n: "Number ''0.1'' = Fin (3602879701896397 / 36028797018963968)"
    using T numbers_tenths(1-3,5) by simp
  have e: "d_earned data_tenths = Number ''0.30000000000000004''"
    using T numbers_tenths(7) by (simp add: data_tenths_def raw_claim_def)
  have p: "p_lpt (cum_from plain_text (Fin 0) (Fin 0) (claims (Some data_tenths)) ! 0)
       = toFixed_num 2 (fadd (Fin 0) (Number ''0.1''))"
    using T by (simp add: cs) (simp add: mk_claim_def raw_claim_def)
  show ?thesis using numbers_tenths(1-3) n e p by (simp add: cs)
qed

text \<open>
  Claim C8 as stated fails: the reward read from the string \<open>0.1\<close> is not the decimal
  1/10, and the lifetime total of claims of 0.1 and 0.2 LPT is 0.30000000000000004 and
  not 3/10.
\<close>

theorem numeric_fields_counterexample:
  "unsigned_decimal ''0.1'' = Some (1 / 10)
   \<and> c_lpt (mk_claim plain_text (raw_claim 1700000000 10 10 ''0.1'' ''0'')) \<noteq> Fin (1 / 10)
   \<and> d_earned data_tenths = Number ''0.30000000000000004''
   \<and> d_earned data_tenths \<noteq> Fin (3 / 10)"
  using numbers_tenths
  by (simp add: mk_claim_def Let_def raw_claim_def data_tenths_def mk_data_totals)

subsection \<open>The handlers on the concrete service\<close>

lemma addr_facts:
  "trim addr_a = addr_a" "trim addr_b = addr_b"
  "toLowerCase addr_a = addr_a" "toLowerCase addr_b = addr_b"
  "\<not> endsWith addr_a ''.eth''" "\<not> endsWith addr_b ''.eth''"
  "is_address addr_a" "is_address addr_b"
  "addr_a \<noteq> []" "addr_b \<noteq> []" "addr_a \<noteq> addr_b" "addr_b \<noteq> addr_a"
  by code_simp+

lemma resolve_addr:
  "resolve_input N addr_a = Inr addr_a" "resolve_input N addr_b = Inr addr_b"
  "resolve_requests addr_a = []" "resolve_requests addr_b = []"
  by (simp_all add: resolve_input_def resolve_requests_def addr_facts Let_def)

lemma fetch_ok:
  "fetch_delegator net_ok addr_a
     = Inr (Some (profile addr_a ''1000''),
            [raw_claim 1700000000 10 10 ''5'' ''0.001'',
             raw_claim 1700086400 11 15 ''20'' ''0.004''],
            no_events)"
  "fetch_delegator net_ok addr_b = Inr (Some (profile addr_b ''50''), [], no_events)"
  by (simp_all add: fetch_delegator_def promise_all_def net_ok_def addr_facts)

lemma load_a:
  "loadDelegator plain_text net_ok addr_a s
   = s\<lparr> loading := False, error := [], orchData := None,
         requests := requests s @ [Q_delegator addr_a, Q_earnings addr_a, Q_events addr_a],
         data := Some data_two_claims, wallet := addr_a, tab := ''dash'', shown := False,
         simStake := Number ''1000'', simCustom := False, url_address := Some addr_a \<rparr>"
  by (simp add: loadDelegator_def try_block_def Let_def addr_facts resolve_addr fetch_ok
      data_two_claims_def profile_def)

lemma load_b:
  "loadDelegator plain_text net_ok addr_b s
   = s\<lparr> loading := False, error := [], orchData := None,
         requests := requests s @ [Q_delegator addr_b, Q_earnings addr_b, Q_events addr_b],
         data := Some (mk_data plain_text addr_b (profile addr_b ''50'') [] no_events),
         wallet := addr_b, tab := ''dash'', shown := False,
         simStake := Number ''50'', simCustom := False, url_address := Some addr_b \<rparr>"
  by (simp add: loadDelegator_def try_block_def Let_def addr_facts resolve_addr fetch_ok
      profile_def)

lemma working_orchs:
  "o_isWorking (mk_orch m a r transcoder_1)" "\<not> o_isWorking (mk_orch m a r transcoder_2)"
  "o_id (mk_orch m a r transcoder_1) = orch_1" "o_id (mk_orch m a r transcoder_2) = orch_2"
  by (simp_all add: mk_orch_def Let_def transcoder_1_def transcoder_2_def numbers_fee_yield
      numbers_50_80)

lemma load_orchs_ok:
  "orchData s = None \<Longrightarrow>
   loadOrchestrators net_ok s
   = s\<lparr> orchLoading := False,
         requests := requests s @ [Q_transcoders, Q_protocol,
                                   Q_domains_in [toLowerCase orch_1, toLowerCase orch_2],
                                   Q_transcoderDays [orch_1]],
         protocolData := Some (mk_protocolData protocol_1),
         orchData := Some [mk_orch (Number ''1000'') (Number ''100000'') ''3000'' transcoder_1,
                           mk_orch (Number ''1000'') (Number ''100000'') ''3000'' transcoder_2] \<rparr>"
  by (simp add: loadOrchestrators_def promise_all_def net_ok_def Let_def working_orchs
      protocol_1_def)

lemma app_compared_eq:
  "app_compared
   = app_init\<lparr> data := Some data_two_claims, wallet := addr_a,
               simStake := Number ''1000'',
               url_address := Some addr_a, tab := ''compare'',
               requests := [Q_delegator addr_a, Q_earnings addr_a, Q_events addr_a,
                            Q_transcoders, Q_protocol,
                            Q_domains_in [toLowerCase orch_1, toLowerCase orch_2],
                            Q_transcoderDays [orch_1]],
               protocolData := Some (mk_protocolData protocol_1),
               orchData := Some [mk_orch (Number ''1000'') (Number ''100000'') ''3000'' transcoder_1,
                                 mk_orch (Number ''1000'') (Number ''100000'') ''3000'' transcoder_2] \<rparr>"
  by (simp add: app_compared_def load_a click_tab_def compare_effect_def load_orchs_ok
      app_init_def)

subsection \<open>Blank and malformed input\<close>

lemma blank_iff_trim_Nil: "(\<forall>c\<in>set s. is_space c) \<longleftrightarrow> trim s = []"
proof
  assume "\<forall>c\<in>set s. is_space c"
  then have "dropWhile is_space s = []" by (simp only: dropWhile_eq_Nil_conv)
  then show "trim s = []" by (simp only: trim_def rev.simps dropWhile.simps)
next
  assume "trim s = []"
  then have "dropWhile is_space (rev (dropWhile is_space s)) = []"
    by (simp only: trim_def rev_is_Nil_conv)
  then have a: "\<forall>c\<in>set (dropWhile is_space s). is_space c"
    by (simp only: dropWhile_eq_Nil_conv set_rev)
  have "dropWhile is_space s = []"
  proof (rule ccontr)
    assume n: "dropWhile is_space s \<noteq> []"
    then have "\<not> is_space (hd (dropWhile is_space s))" by (rule hd_dropWhile)
    moreover have "hd (dropWhile is_space s) \<in> set (dropWhile is_space s)" using n by simp
    ultimately show False using a by blast
  qed
  then show "\<forall>c\<in>set s. is_space c" by (simp only: dropWhile_eq_Nil_conv)
qed

text \<open>
  Claim C10. A lookup with an input that is empty or all white space is a silent no-op: the
  handler returns the state as it found it, so the loading flag is not set, no query is
  sent, no error message is set, and the data, the wallet and the error shown before stay.
  A non-blank input that is neither a name ending in \<open>.eth\<close> nor, in lower case, an
  address, produces the validation message instead, and sends no query either.
\<close>

theorem blank_input_is_noop:
  "((\<forall>c\<in>set address. is_space c) \<longrightarrow> loadDelegator J N address s = s)
   \<and> (trim address \<noteq> [] \<and> \<not> endsWith (trim address) ''.eth''
        \<and> \<not> is_address (toLowerCase (trim address))
      \<longrightarrow> error (loadDelegator J N address s) = msg_invalid_input
        \<and> msg_invalid_input \<noteq> []
        \<and> data (loadDelegator J N address s) = None
        \<and> \<not> loading (loadDelegator J N address s)
        \<and> requests (loadDelegator J N address s) = requests s)"
  by (auto simp: blank_iff_trim_Nil loadDelegator_def try_block_def resolve_input_def
      resolve_requests_def Let_def msg_invalid_input_def)

theorem blank_input_is_noop_witness:
  "is_space (CHR 0x20) \<and> is_space (CHR 0x09) \<and> is_space (CHR 0x0A)
   \<and> loadDelegator plain_text net_ok [CHR 0x20, CHR 0x09, CHR 0x0A] app_compared = app_compared
   \<and> trim '' 0xabc '' \<noteq> [] \<and> \<not> endsWith (trim '' 0xabc '') ''.eth''
   \<and> \<not> is_address (toLowerCase (trim '' 0xabc ''))
   \<and> error (loadDelegator plain_text net_ok '' 0xabc '' app_compared) = msg_invalid_input
   \<and> data (loadDelegator plain_text net_ok '' 0xabc '' app_compared) = None
   \<and> requests (loadDelegator plain_text net_ok '' 0xabc '' app_compared) = requests app_compared"
proof -
  have b: "\<forall>c\<in>set [CHR 0x20, CHR 0x09, CHR 0x0A]. is_space c"
    by (simp add: is_space_def)
  have t: "trim '' 0xabc '' = ''0xabc''"
    by (simp add: trim_def is_space_def)
  have m: "trim '' 0xabc '' \<noteq> []" "\<not> endsWith (trim '' 0xabc '') ''.eth''"
    "\<not> is_address (toLowerCase (trim '' 0xabc ''))"
    by (simp_all add: t endsWith_def is_address_def toLowerCase_def)
  have c: "is_space (CHR 0x20) \<and> is_space (CHR 0x09) \<and> is_space (CHR 0x0A)"
    by (simp add: is_space_def)
  show ?thesis
    using blank_input_is_noop [of "[CHR 0x20, CHR 0x09, CHR 0x0A]" plain_text net_ok app_compared]
      blank_input_is_noop [of "'' 0xabc ''" plain_text net_ok app_compared] b c m
    by simp
qed

subsection \<open>The three queries of a lookup succeed or fail together\<close>

lemma promise_all_Inl:
  "snd (promise_all (t, a) (u, b)) = Inl m \<Longrightarrow> a = Inl m \<or> b = Inl m"
  by (auto simp: promise_all_def split: sum.splits if_splits)

lemma fetch_delegator_Inl:
  "fetch_delegator N addr = Inl m \<Longrightarrow>
     delegator_answer N addr = Inl m \<or> earnings_answer N addr = Inl m \<or> events_answer N addr = Inl m"
proof -
  assume a: "fetch_delegator N addr = Inl m"
  let ?q = "promise_all (settled_at N (Q_earnings addr), earnings_answer N addr)
                        (settled_at N (Q_events addr), events_answer N addr)"
  from a have "snd (promise_all (settled_at N (Q_delegator addr), delegator_answer N addr)
                      (fst ?q, snd ?q)) = Inl m"
    by (simp add: fetch_delegator_def)
  then have "delegator_answer N addr = Inl m \<or> snd ?q = Inl m" by (rule promise_all_Inl)
  then show ?thesis using promise_all_Inl [of _ "earnings_answer N addr" _ "events_answer N addr" m]
    by blast
qed

lemma fetch_delegator_Inr:
  "fetch_delegator N addr = Inr (d, e, v) \<Longrightarrow>
     delegator_answer N addr = Inr d \<and> earnings_answer N addr = Inr e \<and> events_answer N addr = Inr v"
  by (auto simp: fetch_delegator_def promise_all_def split: sum.splits if_splits)

text \<open>
  Claim C3. The profile, claims and events queries form an and-join: when the input
  resolves to an address and one of the three queries is rejected, or the profile query
  returns no delegator, the lookup fails as a whole. The dataset is empty afterwards
  (nothing of this lookup and nothing of an earlier one is kept in it), the error message
  is the message of a rejected query or the no-delegator message, the loading flag is
  cleared, and each of the three queries was sent exactly once: nothing is retried.
  The wallet line and the URL of an earlier lookup are left as they were.
\<close>

theorem lookup_fails_as_a_whole:
  assumes "trim address \<noteq> []"
    and "resolve_input N (trim address) = Inr addr"
    and "(\<exists>m. delegator_answer N addr = Inl m) \<or> (\<exists>m. earnings_answer N addr = Inl m)
         \<or> (\<exists>m. events_answer N addr = Inl m) \<or> delegator_answer N addr = Inr None"
  shows "data (loadDelegator J N address s) = None
     \<and> \<not> loading (loadDelegator J N address s)
     \<and> (delegator_answer N addr = Inl (error (loadDelegator J N address s))
        \<or> earnings_answer N addr = Inl (error (loadDelegator J N address s))
        \<or> events_answer N addr = Inl (error (loadDelegator J N address s))
        \<or> (error (loadDelegator J N address s) = msg_no_delegator
            \<and> delegator_answer N addr = Inr None))
     \<and> requests (loadDelegator J N address s)
         = requests s @ resolve_requests (trim address)
           @ [Q_delegator addr, Q_earnings addr, Q_events addr]
     \<and> orchData (loadDelegator J N address s) = None
     \<and> wallet (loadDelegator J N address s) = wallet s
     \<and> url_address (loadDelegator J N address s) = url_address s"
proof (cases "fetch_delegator N addr")
  case (Inl m)
  from fetch_delegator_Inl [OF Inl] show ?thesis
    using assms(1,2) Inl by (auto simp: loadDelegator_def try_block_def Let_def)
next
  case (Inr r)
  obtain d e v where r: "r = (d, e, v)" by (cases r) auto
  from fetch_delegator_Inr [OF Inr [unfolded r]] assms(3) have "d = None" by auto
  with fetch_delegator_Inr [OF Inr [unfolded r]] show ?thesis
    using assms(1,2) Inr r by (auto simp: loadDelegator_def try_block_def Let_def)
qed

theorem lookup_fails_as_a_whole_witness:
  "trim addr_b \<noteq> [] \<and> resolve_input net_events_down (trim addr_b) = Inr addr_b
   \<and> events_answer net_events_down addr_b = Inl ''indexer unavailable''
   \<and> data app_compared \<noteq> None
   \<and> data (loadDelegator plain_text net_events_down addr_b app_compared) = None
   \<and> error (loadDelegator plain_text net_events_down addr_b app_compared) = ''indexer unavailable''
   \<and> \<not> loading (loadDelegator plain_text net_events_down addr_b app_compared)
   \<and> requests (loadDelegator plain_text net_events_down addr_b app_compared)
       = requests app_compared @ [Q_delegator addr_b, Q_earnings addr_b, Q_events addr_b]"
proof -
  have h: "trim addr_b \<noteq> []" "resolve_input net_events_down (trim addr_b) = Inr addr_b"
    by (simp_all add: addr_facts resolve_addr)
  have a: "events_answer net_events_down addr_b = Inl ''indexer unavailable''"
    "delegator_answer net_events_down addr_b = Inr (Some (profile addr_b ''50''))"
    "earnings_answer net_events_down addr_b = Inr []"
    by (simp_all add: net_events_down_def net_ok_def addr_facts)
  have f: "(\<exists>m. delegator_answer net_events_down addr_b = Inl m)
         \<or> (\<exists>m. earnings_answer net_events_down addr_b = Inl m)
         \<or> (\<exists>m. events_answer net_events_down addr_b = Inl m)
         \<or> delegator_answer net_events_down addr_b = Inr None"
    using a by simp
  have d: "data app_compared \<noteq> None" by (simp add: app_compared_eq)
  show ?thesis
    using lookup_fails_as_a_whole [OF h f, of plain_text app_compared] h a d
    by (simp add: resolve_addr addr_facts)
qed

subsection \<open>The cache of the orchestrator comparison\<close>

lemma loadDelegator_frame:
  assumes "trim address \<noteq> []"
  shows "orchData (loadDelegator J N address s) = None"
    and "protocolData (loadDelegator J N address s) = protocolData s"
    and "ensNames (loadDelegator J N address s) = ensNames s"
    and "orchLoading (loadDelegator J N address s) = orchLoading s"
    and "data (loadDelegator J N address s) \<noteq> None \<Longrightarrow> tab (loadDelegator J N address s) = ''dash''"
  using assms
  by (auto simp: loadDelegator_def try_block_def Let_def split: sum.splits option.splits prod.splits)

lemma loadOrchestrators_requests:
  "orchData s = None \<Longrightarrow>
   \<exists>rest. requests (loadOrchestrators N s) = requests s @ Q_transcoders # Q_protocol # rest"
  by (auto simp: loadOrchestrators_def Let_def split: sum.splits prod.splits)

text \<open>
  Claim C2, as the code has it. While the orchestrator data is cached, loading it again or
  asking for the comparison view sends no query and leaves it as it is. A lookup for any
  non-blank input clears the cached orchestrator data together with the data of the
  delegator; the protocol constants and the resolved names stay. After a lookup that
  succeeded, the next request for the comparison view sends the orchestrator and protocol
  queries again.
\<close>

theorem orchestrator_cache_per_lookup:
  "(orchData s \<noteq> None \<longrightarrow>
       loadOrchestrators N s = s \<and> compare_effect N s = s
       \<and> requests (click_tab N ''compare'' s) = requests s
       \<and> orchData (click_tab N ''compare'' s) = orchData s)
   \<and> (trim address \<noteq> [] \<longrightarrow>
       orchData (loadDelegator J N address s) = None
       \<and> protocolData (loadDelegator J N address s) = protocolData s
       \<and> ensNames (loadDelegator J N address s) = ensNames s)
   \<and> (trim address \<noteq> [] \<and> data (loadDelegator J N address s) \<noteq> None \<and> \<not> orchLoading s \<longrightarrow>
       (\<exists>rest. requests (click_tab N' ''compare'' (loadDelegator J N address s))
                = requests (loadDelegator J N address s) @ Q_transcoders # Q_protocol # rest))"
proof -
  have a: "loadOrchestrators N s = s \<and> compare_effect N s = s
       \<and> requests (click_tab N ''compare'' s) = requests s
       \<and> orchData (click_tab N ''compare'' s) = orchData s" if "orchData s \<noteq> None"
  proof -
    from that obtain os where os: "orchData s = Some os" by auto
    show ?thesis by (simp add: os loadOrchestrators_def compare_effect_def click_tab_def)
  qed
  have c: "\<exists>rest. requests (click_tab N' ''compare'' (loadDelegator J N address s))
                = requests (loadDelegator J N address s) @ Q_transcoders # Q_protocol # rest"
    if t: "trim address \<noteq> []" and d: "data (loadDelegator J N address s) \<noteq> None"
      and l: "\<not> orchLoading s"
  proof -
    let ?s = "loadDelegator J N address s"
    have "click_tab N' ''compare'' ?s = loadOrchestrators N' (?s\<lparr>tab := ''compare''\<rparr>)"
      using loadDelegator_frame [OF t, of J N s] d l
      by (simp add: click_tab_def compare_effect_def)
    moreover have "orchData (?s\<lparr>tab := ''compare''\<rparr>) = None"
      using loadDelegator_frame(1) [OF t, of J N s] by simp
    ultimately show ?thesis
      using loadOrchestrators_requests [of "?s\<lparr>tab := ''compare''\<rparr>" N'] by simp
  qed
  show ?thesis using a c loadDelegator_frame(1,2,3) by blast
qed

theorem orchestrator_cache_per_lookup_witness:
  "orchData app_compared \<noteq> None
   \<and> loadOrchestrators net_ok app_compared = app_compared
   \<and> trim addr_b \<noteq> []
   \<and> data (loadDelegator plain_text net_ok addr_b app_compared) \<noteq> None
   \<and> \<not> orchLoading app_compared
   \<and> orchData (loadDelegator plain_text net_ok addr_b app_compared) = None
   \<and> protocolData (loadDelegator plain_text net_ok addr_b app_compared) = protocolData app_compared
   \<and> (\<exists>rest. requests (click_tab net_ok ''compare'' (loadDelegator plain_text net_ok addr_b app_compared))
         = requests (loadDelegator plain_text net_ok addr_b app_compared)
           @ Q_transcoders # Q_protocol # rest)"
proof -
  have h: "orchData app_compared \<noteq> None" "\<not> orchLoading app_compared"
    by (simp_all add: app_compared_eq app_init_def)
  have t: "trim addr_b \<noteq> []" by (simp add: addr_facts)
  have d: "data (loadDelegator plain_text net_ok addr_b app_compared) \<noteq> None"
    by (simp add: load_b)
  show ?thesis
    using orchestrator_cache_per_lookup [of app_compared net_ok addr_b plain_text net_ok] h t d
    by simp
qed

text \<open>
  Claim C2 as stated fails: with the comparison loaded for \<open>addr_a\<close>, a lookup of
  \<open>addr_b\<close> changes the cached orchestrator data (it empties it), and the comparison view
  requested afterwards sends the orchestrator query a second time.
\<close>

theorem orchestrator_cache_counterexample:
  "orchData app_compared \<noteq> None
   \<and> wallet app_compared = addr_a \<and> addr_b \<noteq> addr_a
   \<and> orchData (loadDelegator plain_text net_ok addr_b app_compared) \<noteq> orchData app_compared
   \<and> count_list (requests app_compared) Q_transcoders = 1
   \<and> count_list (requests (click_tab net_ok ''compare''
                     (loadDelegator plain_text net_ok addr_b app_compared))) Q_transcoders = 2"
  by (simp add: load_b click_tab_def compare_effect_def load_orchs_ok app_compared_eq
      app_init_def addr_facts)

subsection \<open>The CSV export\<close>

lemma filtered_compared:
  "filteredOrchs app_compared
   = [mk_orch (Number ''1000'') (Number ''100000'') ''3000'' transcoder_1]"
  by (simp add: filteredOrchs_def app_compared_eq app_init_def working_orchs Let_def
      sort_by_def)

lemma mset_insert_by: "mset (insert_by cmp x ys) = add_mset x (mset ys)"
  by (induction ys) simp_all

lemma mset_sort_by: "mset (sort_by cmp xs) = mset xs"
  by (induction xs) (simp_all add: sort_by_def mset_insert_by)

lemma set_sort_by: "set (sort_by cmp xs) = set xs"
  using mset_sort_by [of cmp xs] by (metis set_mset_mset)

text \<open>
  Claim C9, as the code has it. The export writes a fixed schema of 11 named columns:
  the header line is the same list whatever the sort and filter state, and every line has
  11 fields. The lines after the header are those of the filtered orchestrator list handed
  over by the export button, in its order, together with the resolved names and the
  effective (simulated or bonded) stake; with the filter on working orchestrators no other
  orchestrator is exported.
\<close>

theorem export_fixed_columns:
  "csv_headers = [''Orchestrator'', ''ENS Name'', ''Reward APY %'', ''30d ETH Fees'', ''ETH/LPT/yr'',
      ''Reward Cut %'', ''Fee Share %'', ''Total Stake'', ''Reward Calling'', ''Est LPT/yr'',
      ''Est ETH/yr'']
   \<and> length csv_headers = 11
   \<and> hd (csv_table J orchs names stake) = csv_headers
   \<and> (\<forall>row \<in> set (csv_table J orchs names stake). length row = 11)
   \<and> length (csv_table J orchs names stake) = Suc (length orchs)
   \<and> map hd (tl (csv_table J orchs names stake)) = map o_id orchs
   \<and> click_export J s
       = (''livepeer-orchestrators.csv'',
          join [CHR 0x0A] (map (join '','')
            (csv_table J (filteredOrchs s) (ensNames s) (effectiveStake s))))
   \<and> mset (filteredOrchs s)
       = mset (filter (\<lambda>orc. orchFilter s = ''all'' \<or> o_isWorking orc)
                 (case orchData s of None \<Rightarrow> [] | Some os \<Rightarrow> os))
   \<and> (orchFilter s \<noteq> ''all'' \<longrightarrow> (\<forall>orc \<in> set (filteredOrchs s). o_isWorking orc))"
  by (auto simp: csv_headers_def csv_table_def csv_row_def click_export_def exportCSV_def
      filteredOrchs_def Let_def comp_def mset_sort_by set_sort_by)

theorem export_fixed_columns_witness:
  "orchFilter app_compared \<noteq> ''all''
   \<and> map o_id (the (orchData app_compared)) = [orch_1, orch_2]
   \<and> map o_isWorking (filteredOrchs app_compared) = [True]
   \<and> map hd (tl (csv_table plain_text (filteredOrchs app_compared) (ensNames app_compared)
                    (effectiveStake app_compared))) = [orch_1]
   \<and> map length (csv_table plain_text (filteredOrchs app_compared) (ensNames app_compared)
                    (effectiveStake app_compared)) = [11, 11]"
proof -
  let ?tab = "csv_table plain_text (filteredOrchs app_compared) (ensNames app_compared)
                (effectiveStake app_compared)"
  note T = export_fixed_columns [of plain_text "filteredOrchs app_compared"
        "ensNames app_compared" "effectiveStake app_compared" app_compared]
  have f: "orchFilter app_compared \<noteq> ''all''"
    "map o_id (the (orchData app_compared)) = [orch_1, orch_2]"
    by (simp_all add: app_compared_eq app_init_def working_orchs)
  have w: "map o_isWorking (filteredOrchs app_compared) = [True]"
    using T f by (simp add: filtered_compared)
  have l: "length ?tab = 2" using T by (simp add: filtered_compared)
  have r: "\<forall>row \<in> set ?tab. length row = 11" using T by blast
  have "map length ?tab = replicate (length ?tab) 11"
    using r by (simp add: map_replicate_const [symmetric] cong: map_cong)
  then have m: "map length ?tab = [11, 11]" using l by (simp add: numeral_2_eq_2)
  show ?thesis using T f w m by (simp add: filtered_compared working_orchs)
qed

text \<open>Claim C9 as stated fails on the number of columns: the schema has 11, not 12 or more.\<close>

theorem export_twelve_columns_counterexample:
  "hd (csv_table plain_text [] Map.empty (Fin 0)) = csv_headers \<and> \<not> 12 \<le> length csv_headers"
  by (simp add: csv_table_def csv_headers_def)

end
